theory Spec2Isabelle
  imports Main "HOL-Library.Word" "HOL-Library.Sublist" "HOL-Library.Multiset"
begin

section \<open>Status codes and layer descriptors\<close>

text \<open>
  The status codes of \<^verbatim>\<open>hailo_status\<close> that \<^verbatim>\<open>core_op_metadata.cpp\<close> names
  (\<^verbatim>\<open>HAILO_SUCCESS\<close>, \<^verbatim>\<open>HAILO_NOT_FOUND\<close>, \<^verbatim>\<open>HAILO_INTERNAL_FAILURE\<close>); every other status, which
  only an external collaborator such as \<^verbatim>\<open>LayerInfoUtils::get_transfer_size\<close> can
  produce, is \<open>HAILO_STATUS n\<close>. An \<^verbatim>\<open>Expected<T>\<close> is the sum \<open>hailo_status + T\<close>,
  \<open>Inl\<close> carrying the failure status (\<^verbatim>\<open>make_unexpected\<close>).
\<close>

datatype hailo_status =
  HAILO_SUCCESS | HAILO_NOT_FOUND | HAILO_INTERNAL_FAILURE | HAILO_STATUS nat

datatype hailo_stream_direction_t = HAILO_H2D_STREAM | HAILO_D2H_STREAM

text \<open>
  \<^verbatim>\<open>LayerInfo\<close>, with the fields that \<^verbatim>\<open>core_op_metadata.cpp\<close> reads. The vectors
  \<^verbatim>\<open>predecessor\<close> and \<^verbatim>\<open>fused_nms_layer\<close> hold \<^verbatim>\<open>LayerInfo\<close> values, so a layer is a finite
  tree.
\<close>

datatype LayerInfo = LayerInfo
  (name: string)
  (direction: hailo_stream_direction_t)
  (network_name: string)
  (is_mux: bool)
  (predecessor: "LayerInfo list")
  (is_defused_nms: bool)
  (fused_nms_layer: "LayerInfo list")

section \<open>Layer tree algorithms\<close>

text \<open>
  \<^verbatim>\<open>get_demuxes_names_impl(info, res)\<close> appends to the vector \<^verbatim>\<open>res\<close>, passed by
  reference: the model takes \<open>res\<close> and returns it updated.
  \<open>get_demuxes_names_impl_loop\<close> is the \<^verbatim>\<open>for\<close> loop over \<^verbatim>\<open>info.predecessor\<close>.
\<close>

fun get_demuxes_names_impl :: "LayerInfo \<Rightarrow> string list \<Rightarrow> string list"
  and get_demuxes_names_impl_loop :: "LayerInfo list \<Rightarrow> string list \<Rightarrow> string list"
where
  "get_demuxes_names_impl (LayerInfo n d nn m ps dn fl) res =
     (if \<not> m then res @ [n] else get_demuxes_names_impl_loop ps res)"
| "get_demuxes_names_impl_loop [] res = res"
| "get_demuxes_names_impl_loop (pred # preds) res =
     get_demuxes_names_impl_loop preds (get_demuxes_names_impl pred res)"

definition get_demuxes_names :: "LayerInfo \<Rightarrow> string list" where
  "get_demuxes_names info = get_demuxes_names_impl info []"

text \<open>
  \<^verbatim>\<open>is_edge_under_mux(info, edge_name)\<close>. \<open>is_edge_under_mux_loop\<close> is the \<^verbatim>\<open>for\<close> loop
  over \<^verbatim>\<open>info.predecessor\<close>; its first argument is \<^verbatim>\<open>info.is_mux\<close>, which the loop body
  tests again for every predecessor. The loop returns \<open>True\<close> at the first predecessor
  that succeeds and \<open>False\<close> after the last.
\<close>

fun is_edge_under_mux :: "LayerInfo \<Rightarrow> string \<Rightarrow> bool"
  and is_edge_under_mux_loop :: "bool \<Rightarrow> LayerInfo list \<Rightarrow> string \<Rightarrow> bool"
where
  "is_edge_under_mux (LayerInfo n d nn m ps dn fl) edge_name =
     (if \<not> m then edge_name = n else is_edge_under_mux_loop m ps edge_name)"
| "is_edge_under_mux_loop info_is_mux [] edge_name = False"
| "is_edge_under_mux_loop info_is_mux (pred # preds) edge_name =
     (if info_is_mux then
        (if is_edge_under_mux pred edge_name then True
         else is_edge_under_mux_loop info_is_mux preds edge_name)
      else
        (if edge_name = name pred then True
         else is_edge_under_mux_loop info_is_mux preds edge_name))"

text \<open>
  The simplified test that the specification asks for: for each predecessor, recurse when
  the predecessor is mux, otherwise compare its name.
\<close>

fun is_edge_under_mux_simplified :: "LayerInfo \<Rightarrow> string \<Rightarrow> bool"
  and is_edge_under_mux_simplified_loop :: "LayerInfo list \<Rightarrow> string \<Rightarrow> bool"
where
  "is_edge_under_mux_simplified (LayerInfo n d nn m ps dn fl) edge_name =
     (if \<not> m then edge_name = n else is_edge_under_mux_simplified_loop ps edge_name)"
| "is_edge_under_mux_simplified_loop [] edge_name = False"
| "is_edge_under_mux_simplified_loop (pred # preds) edge_name =
     (if is_mux pred then
        (if is_edge_under_mux_simplified pred edge_name then True
         else is_edge_under_mux_simplified_loop preds edge_name)
      else
        (if edge_name = name pred then True
         else is_edge_under_mux_simplified_loop preds edge_name))"

section \<open>Contexts\<close>

text \<open>
  \<^verbatim>\<open>size_t\<close> is an unsigned 64-bit integer (as on every 64-bit platform); \<open>+\<close> on
  \<open>64 word\<close> wraps as it does.

  \<^verbatim>\<open>ConfigBufferInfoMap\<close> maps a config-buffer identifier to the sizes of the writes to
  that buffer. The source iterates over it (\<^verbatim>\<open>for (const auto &config_buffer_sizes :
  m_config_buffers_info)\<close>), so it is the list of its (key, value) pairs in iteration
  order. Its declaration is in \<^verbatim>\<open>core_op_metadata.hpp\<close>: the sizes are \<^verbatim>\<open>uint32_t\<close>.
\<close>

type_synonym size_t = "64 word"

type_synonym ConfigBufferInfoMap = "(nat \<times> 32 word list) list"

text \<open>
  \<^verbatim>\<open>ContextMetadata\<close>: the config-buffer map and the six edge-layer vectors. (The action
  list \<^verbatim>\<open>m_actions\<close> takes no part in the operations modelled here.)
\<close>

record ContextMetadata =
  m_config_buffers_info :: ConfigBufferInfoMap
  m_boundary_input_layers :: "LayerInfo list"
  m_boundary_output_layers :: "LayerInfo list"
  m_inter_context_input_layers :: "LayerInfo list"
  m_inter_context_output_layers :: "LayerInfo list"
  m_ddr_input_layers :: "LayerInfo list"
  m_ddr_output_layers :: "LayerInfo list"

text \<open>
  \<^verbatim>\<open>get_layers_transfer_size\<close>. The external \<^verbatim>\<open>LayerInfoUtils::get_transfer_size\<close> is the
  parameter \<open>get_transfer_size\<close>; \<^verbatim>\<open>CHECK_EXPECTED\<close> returns its failure status at once.
\<close>

fun get_layers_transfer_size_loop ::
  "(LayerInfo \<Rightarrow> hailo_status + size_t) \<Rightarrow> LayerInfo list \<Rightarrow> size_t \<Rightarrow> hailo_status + size_t"
where
  "get_layers_transfer_size_loop get_transfer_size [] total_transfer_size =
     Inr total_transfer_size"
| "get_layers_transfer_size_loop get_transfer_size (layer_info # layer_infos) total_transfer_size =
     (case get_transfer_size layer_info of
        Inl status \<Rightarrow> Inl status
      | Inr transfer_size \<Rightarrow>
          get_layers_transfer_size_loop get_transfer_size layer_infos
            (total_transfer_size + transfer_size))"

definition get_layers_transfer_size ::
  "(LayerInfo \<Rightarrow> hailo_status + size_t) \<Rightarrow> LayerInfo list \<Rightarrow> hailo_status + size_t"
where
  "get_layers_transfer_size get_transfer_size layer_infos =
     get_layers_transfer_size_loop get_transfer_size layer_infos 0"

text \<open>
  \<^verbatim>\<open>std::accumulate(sizes.begin(), sizes.end(), 0)\<close>: the initial value \<^verbatim>\<open>0\<close> is an
  \<^verbatim>\<open>int\<close>, so the accumulator is an \<^verbatim>\<open>int\<close>. Each step computes \<^verbatim>\<open>acc + x\<close> with
  \<^verbatim>\<open>x\<close> a \<^verbatim>\<open>uint32_t\<close>, that is in unsigned 32-bit arithmetic, and stores the result back
  into the \<^verbatim>\<open>int\<close>: the accumulator holds the sum modulo \<open>2 ^ 32\<close>, read as a signed
  32-bit value. \<open>accumulate_int\<close> returns the 32 bits of that \<^verbatim>\<open>int\<close>.
\<close>

definition accumulate_int :: "32 word list \<Rightarrow> 32 word" where
  "accumulate_int sizes = foldl (\<lambda>acc x. acc + x) 0 sizes"

text \<open>
  The loop over the config buffers. \<^verbatim>\<open>total_transfer_size += <int>\<close> converts the \<^verbatim>\<open>int\<close>
  to \<^verbatim>\<open>size_t\<close>, which extends its sign (\<open>scast\<close>).
\<close>

fun config_buffers_loop :: "ConfigBufferInfoMap \<Rightarrow> size_t \<Rightarrow> size_t" where
  "config_buffers_loop [] total_transfer_size = total_transfer_size"
| "config_buffers_loop (config_buffer_sizes # rest) total_transfer_size =
     config_buffers_loop rest
       (total_transfer_size + scast (accumulate_int (snd config_buffer_sizes)))"

definition get_context_transfer_size ::
  "(LayerInfo \<Rightarrow> hailo_status + size_t) \<Rightarrow> ContextMetadata \<Rightarrow> hailo_status + size_t"
where
  "get_context_transfer_size get_transfer_size context =
     (let total_transfer_size = config_buffers_loop (m_config_buffers_info context) 0 in
      case get_layers_transfer_size get_transfer_size (m_boundary_input_layers context) of
        Inl status \<Rightarrow> Inl status
      | Inr boundary_input_transfer_size \<Rightarrow>
      case get_layers_transfer_size get_transfer_size (m_boundary_output_layers context) of
        Inl status \<Rightarrow> Inl status
      | Inr boundary_output_transfer_size \<Rightarrow>
      case get_layers_transfer_size get_transfer_size (m_ddr_input_layers context) of
        Inl status \<Rightarrow> Inl status
      | Inr ddr_input_transfer_size \<Rightarrow>
      case get_layers_transfer_size get_transfer_size (m_ddr_output_layers context) of
        Inl status \<Rightarrow> Inl status
      | Inr ddr_output_transfer_size \<Rightarrow>
      case get_layers_transfer_size get_transfer_size (m_inter_context_input_layers context) of
        Inl status \<Rightarrow> Inl status
      | Inr inter_context_input_transfer_size \<Rightarrow>
      case get_layers_transfer_size get_transfer_size (m_inter_context_output_layers context) of
        Inl status \<Rightarrow> Inl status
      | Inr inter_context_output_transfer_size \<Rightarrow>
          Inr (total_transfer_size +
            (boundary_input_transfer_size + boundary_output_transfer_size +
             ddr_input_transfer_size + ddr_output_transfer_size +
             inter_context_input_transfer_size + inter_context_output_transfer_size)))"

section \<open>Core-op metadata\<close>

text \<open>
  \<^verbatim>\<open>hailo_vstream_info_t\<close>: the name (a character array, compared as a string) and the
  network name; \<open>vstream_rest\<close> stands for the remaining fields (format, shape, ...).
\<close>

record hailo_vstream_info_t =
  vstream_name :: string
  vstream_network_name :: string
  vstream_rest :: nat

text \<open>
  \<^verbatim>\<open>CoreOpMetadata\<close>. \<open>hailo_net_flow\<close> is \<^verbatim>\<open>m_supported_features.hailo_net_flow\<close>;
  \<open>default_network_name\<close> is the value of the member function \<^verbatim>\<open>default_network_name()\<close>,
  which is defined in \<^verbatim>\<open>core_op_metadata.hpp\<close>. (\<^verbatim>\<open>m_config_channels_info\<close> takes no part in
  the operations modelled here.)
\<close>

record CoreOpMetadata =
  m_preliminary_context :: ContextMetadata
  m_dynamic_contexts :: "ContextMetadata list"
  m_core_op_name :: string
  m_sorted_output_names :: "string list"
  hailo_net_flow :: bool
  m_sorted_network_names :: "string list"
  m_output_vstreams_infos :: "hailo_vstream_info_t list"
  default_network_name :: string

fun get_total_transfer_size_loop ::
  "(LayerInfo \<Rightarrow> hailo_status + size_t) \<Rightarrow> ContextMetadata list \<Rightarrow> size_t \<Rightarrow> hailo_status + size_t"
where
  "get_total_transfer_size_loop get_transfer_size [] total_transfer_size =
     Inr total_transfer_size"
| "get_total_transfer_size_loop get_transfer_size (dynamic_context # contexts) total_transfer_size =
     (case get_context_transfer_size get_transfer_size dynamic_context of
        Inl status \<Rightarrow> Inl status
      | Inr context_size \<Rightarrow>
          get_total_transfer_size_loop get_transfer_size contexts
            (total_transfer_size + context_size))"

definition get_total_transfer_size ::
  "(LayerInfo \<Rightarrow> hailo_status + size_t) \<Rightarrow> CoreOpMetadata \<Rightarrow> hailo_status + size_t"
where
  "get_total_transfer_size get_transfer_size metadata =
     get_total_transfer_size_loop get_transfer_size (m_dynamic_contexts metadata) 0"

subsection \<open>Boundary layer queries\<close>

text \<open>
  The nested loops over the dynamic contexts and their boundary layers; \<^verbatim>\<open>emplace_back\<close>
  appends to \<open>res\<close>. The preliminary context is not read.
\<close>

definition get_input_layer_infos :: "CoreOpMetadata \<Rightarrow> LayerInfo list" where
  "get_input_layer_infos metadata =
     foldl (\<lambda>res context.
         foldl (\<lambda>res layer_info. res @ [layer_info]) res (m_boundary_input_layers context))
       [] (m_dynamic_contexts metadata)"

definition get_output_layer_infos :: "CoreOpMetadata \<Rightarrow> LayerInfo list" where
  "get_output_layer_infos metadata =
     foldl (\<lambda>res context.
         foldl (\<lambda>res layer_info. res @ [layer_info]) res (m_boundary_output_layers context))
       [] (m_dynamic_contexts metadata)"

definition get_all_layer_infos :: "CoreOpMetadata \<Rightarrow> LayerInfo list" where
  "get_all_layer_infos metadata =
     (let input_layer_infos = get_input_layer_infos metadata;
          output_layer_infos = get_output_layer_infos metadata
      in [] @ input_layer_infos @ output_layer_infos)"

text \<open>
  The overloads that take a network name. \<^verbatim>\<open>CHECK_AS_EXPECTED(res.size() > 0,
  HAILO_NOT_FOUND, ...)\<close> returns \<^verbatim>\<open>HAILO_NOT_FOUND\<close> when the condition is false.
\<close>

definition get_input_layer_infos_of_network ::
  "CoreOpMetadata \<Rightarrow> string \<Rightarrow> hailo_status + LayerInfo list"
where
  "get_input_layer_infos_of_network metadata network_name' =
     (let res =
        foldl (\<lambda>res context.
            foldl (\<lambda>res layer_info.
                if network_name layer_info = network_name' \<or> network_name' = [] \<or>
                   network_name' = default_network_name metadata
                then res @ [layer_info] else res)
              res (m_boundary_input_layers context))
          [] (m_dynamic_contexts metadata)
      in if length res > 0 then Inr res else Inl HAILO_NOT_FOUND)"

definition get_output_layer_infos_of_network ::
  "CoreOpMetadata \<Rightarrow> string \<Rightarrow> hailo_status + LayerInfo list"
where
  "get_output_layer_infos_of_network metadata network_name' =
     (let res =
        foldl (\<lambda>res context.
            foldl (\<lambda>res layer_info.
                if network_name layer_info = network_name' \<or> network_name' = [] \<or>
                   network_name' = default_network_name metadata
                then res @ [layer_info] else res)
              res (m_boundary_output_layers context))
          [] (m_dynamic_contexts metadata)
      in if length res > 0 then Inr res else Inl HAILO_NOT_FOUND)"

subsection \<open>Virtual stream conversion\<close>

text \<open>
  Modelled from the spec: \<^verbatim>\<open>LayerInfoUtils::vstream_info_already_in_vector\<close> is defined in
  \<^verbatim>\<open>layer_info.hpp\<close>. The specification says that the conversion deduplicates by the
  resulting vstream name and keeps the first occurrence, so the test is whether a
  descriptor of the vector carries the name.
\<close>

fun vstream_info_already_in_vector :: "hailo_vstream_info_t list \<Rightarrow> string \<Rightarrow> bool" where
  "vstream_info_already_in_vector [] name' = False"
| "vstream_info_already_in_vector (info # vec) name' =
     (if name' = vstream_name info then True else vstream_info_already_in_vector vec name')"

text \<open>
  \<^verbatim>\<open>convert_layer_infos_to_vstream_infos\<close>. The external
  \<^verbatim>\<open>LayerInfoUtils::get_vstream_infos_from_layer_info\<close> is the parameter
  \<open>get_vstream_infos_from_layer_info\<close>. \<open>push_if_new\<close> is the body of the inner loop.
\<close>

definition push_if_new ::
  "hailo_vstream_info_t list \<Rightarrow> hailo_vstream_info_t \<Rightarrow> hailo_vstream_info_t list"
where
  "push_if_new res vstream_info =
     (if \<not> vstream_info_already_in_vector res (vstream_name vstream_info)
      then res @ [vstream_info] else res)"

definition convert_layer_infos_to_vstream_infos ::
  "(LayerInfo \<Rightarrow> hailo_vstream_info_t list) \<Rightarrow> LayerInfo list \<Rightarrow> hailo_vstream_info_t list"
where
  "convert_layer_infos_to_vstream_infos get_vstream_infos_from_layer_info layer_infos =
     foldl (\<lambda>res layer_info.
         foldl push_if_new res (get_vstream_infos_from_layer_info layer_info))
       [] layer_infos"

subsection \<open>Ordering of the output virtual streams\<close>

text \<open>
  \<^verbatim>\<open>std::find(first, last, value)\<close>, as the position of the iterator it returns: the index
  of the first element equal to \<open>value\<close>, or the length of the sequence (\<^verbatim>\<open>end()\<close>).
\<close>

fun std_find :: "'a list \<Rightarrow> 'a \<Rightarrow> nat" where
  "std_find [] v = 0"
| "std_find (x # xs) v = (if x = v then 0 else Suc (std_find xs v))"

text \<open>
  The comparator of \<^verbatim>\<open>get_output_vstream_infos\<close>. It captures \<^verbatim>\<open>status\<close> by reference and
  may overwrite it, so the model takes the status and returns it with the result.
\<close>

definition output_names_comparator ::
  "string list \<Rightarrow> hailo_vstream_info_t \<Rightarrow> hailo_vstream_info_t \<Rightarrow> hailo_status \<Rightarrow> bool \<times> hailo_status"
where
  "output_names_comparator sorted_output_names info1 info2 status =
     (let index1 = std_find sorted_output_names (vstream_name info1);
          index2 = std_find sorted_output_names (vstream_name info2)
      in if length sorted_output_names = index1 then (False, HAILO_INTERNAL_FAILURE)
         else if length sorted_output_names = index2 then (False, HAILO_INTERNAL_FAILURE)
         else (index1 < index2, status))"

text \<open>
  \<^verbatim>\<open>std::sort\<close> belongs to the C++ standard library. The model is the insertion sort that
  libstdc++ runs on a range of at most 16 elements (\<^verbatim>\<open>__insertion_sort\<close> with
  \<^verbatim>\<open>__unguarded_linear_insert\<close>), with the comparator's state passed along. On an empty or
  a one-element range it calls the comparator not at all, as every implementation does.

  \<open>unguarded_linear_insert cmp val rprefix\<close> inserts \<open>val\<close> into the sorted prefix, given
  in reverse (its last element first), moving left while \<open>cmp val nxt\<close> holds.
  \<open>insertion_sort_loop\<close> calls it only after \<open>cmp val first\<close> has returned false, so the
  scan stops at the first element at the latest and the equation for the empty prefix is
  not reached with a comparator whose result does not depend on its state.
\<close>

fun unguarded_linear_insert ::
  "('a \<Rightarrow> 'a \<Rightarrow> 's \<Rightarrow> bool \<times> 's) \<Rightarrow> 'a \<Rightarrow> 'a list \<Rightarrow> 's \<Rightarrow> 'a list \<times> 's"
where
  "unguarded_linear_insert cmp val [] st = ([val], st)"
| "unguarded_linear_insert cmp val (nxt # rprefix) st =
     (let (lt, st') = cmp val nxt st in
      if lt then
        (let (rprefix', st'') = unguarded_linear_insert cmp val rprefix st'
         in (nxt # rprefix', st''))
      else (val # nxt # rprefix, st'))"

fun insertion_sort_loop ::
  "('a \<Rightarrow> 'a \<Rightarrow> 's \<Rightarrow> bool \<times> 's) \<Rightarrow> 'a list \<Rightarrow> 'a list \<Rightarrow> 's \<Rightarrow> 'a list \<times> 's"
where
  "insertion_sort_loop cmp rprefix [] st = (rev rprefix, st)"
| "insertion_sort_loop cmp rprefix (val # rest) st =
     (let (lt, st') = cmp val (last rprefix) st in
      if lt then insertion_sort_loop cmp (rprefix @ [val]) rest st'
      else
        (let (rprefix', st'') = unguarded_linear_insert cmp val rprefix st'
         in insertion_sort_loop cmp rprefix' rest st''))"

definition std_sort ::
  "('a \<Rightarrow> 'a \<Rightarrow> 's \<Rightarrow> bool \<times> 's) \<Rightarrow> 'a list \<Rightarrow> 's \<Rightarrow> 'a list \<times> 's"
where
  "std_sort cmp xs st =
     (case xs of [] \<Rightarrow> ([], st) | first # rest \<Rightarrow> insertion_sort_loop cmp [first] rest st)"

text \<open>
  \<^verbatim>\<open>get_output_vstream_infos\<close>. \<^verbatim>\<open>CHECK_SUCCESS_AS_EXPECTED(status)\<close> returns the status
  when it is not \<^verbatim>\<open>HAILO_SUCCESS\<close>.
\<close>

definition get_output_vstream_infos ::
  "(LayerInfo \<Rightarrow> hailo_vstream_info_t list) \<Rightarrow> CoreOpMetadata \<Rightarrow> string \<Rightarrow>
     hailo_status + hailo_vstream_info_t list"
where
  "get_output_vstream_infos get_vstream_infos_from_layer_info metadata network_name' =
     (if hailo_net_flow metadata then Inr (m_output_vstreams_infos metadata)
      else
        case get_output_layer_infos_of_network metadata network_name' of
          Inl status \<Rightarrow> Inl status
        | Inr output_layer_infos \<Rightarrow>
            (let res = convert_layer_infos_to_vstream_infos get_vstream_infos_from_layer_info
                         output_layer_infos;
                 (res', status) =
                   std_sort (output_names_comparator (m_sorted_output_names metadata))
                     res HAILO_SUCCESS
             in if status \<noteq> HAILO_SUCCESS then Inl status else Inr res'))"

subsection \<open>Stream names and virtual stream names\<close>

text \<open>
  \<^verbatim>\<open>layer_info.fused_nms_layer[0]\<close> reads a vector without a bounds check: on an empty
  vector the behaviour of the C++ is undefined. The two functions below therefore return
  an option, \<open>None\<close> standing for such a read out of range.

  \<^verbatim>\<open>get_vstream_names_from_stream_name\<close> returns from inside the loop at the first layer
  whose name is the stream name.
\<close>

fun get_vstream_names_from_stream_name_loop ::
  "LayerInfo list \<Rightarrow> string \<Rightarrow> (hailo_status + string list) option"
where
  "get_vstream_names_from_stream_name_loop [] stream_name = Some (Inl HAILO_NOT_FOUND)"
| "get_vstream_names_from_stream_name_loop (layer_info # layer_infos) stream_name =
     (if stream_name = name layer_info then
        (if is_defused_nms layer_info then
           (case fused_nms_layer layer_info of
              [] \<Rightarrow> None
            | fused # _ \<Rightarrow> Some (Inr [name fused]))
         else if is_mux layer_info then Some (Inr (get_demuxes_names layer_info))
         else Some (Inr [name layer_info]))
      else get_vstream_names_from_stream_name_loop layer_infos stream_name)"

definition get_vstream_names_from_stream_name ::
  "CoreOpMetadata \<Rightarrow> string \<Rightarrow> (hailo_status + string list) option"
where
  "get_vstream_names_from_stream_name metadata stream_name =
     get_vstream_names_from_stream_name_loop (get_all_layer_infos metadata) stream_name"

text \<open>
  The body of the loop of \<^verbatim>\<open>get_stream_names_from_vstream_name\<close> for one layer: the
  vector \<open>results\<close> after the layer, or \<open>None\<close> for a read out of range.
\<close>

definition get_stream_names_from_vstream_name_body ::
  "bool \<Rightarrow> string \<Rightarrow> LayerInfo \<Rightarrow> string list \<Rightarrow> string list option"
where
  "get_stream_names_from_vstream_name_body net_flow vstream_name' layer_info results =
     (if is_mux layer_info then
        (if is_edge_under_mux layer_info vstream_name'
         then Some (results @ [name layer_info]) else Some results)
      else if is_defused_nms layer_info then
        (case fused_nms_layer layer_info of
           [] \<Rightarrow> None
         | fused # _ \<Rightarrow>
             if vstream_name' = name fused
             then Some (results @ [name layer_info]) else Some results)
      else if net_flow \<and> direction layer_info = HAILO_D2H_STREAM then
        Some (results @ [name layer_info])
      else if vstream_name' = name layer_info then Some (results @ [name layer_info])
      else Some results)"

fun get_stream_names_from_vstream_name_loop ::
  "bool \<Rightarrow> string \<Rightarrow> LayerInfo list \<Rightarrow> string list \<Rightarrow> string list option"
where
  "get_stream_names_from_vstream_name_loop net_flow vstream_name' [] results = Some results"
| "get_stream_names_from_vstream_name_loop net_flow vstream_name' (layer_info # layer_infos) results =
     (case get_stream_names_from_vstream_name_body net_flow vstream_name' layer_info results of
        None \<Rightarrow> None
      | Some results' \<Rightarrow>
          get_stream_names_from_vstream_name_loop net_flow vstream_name' layer_infos results')"

definition get_stream_names_from_vstream_name ::
  "CoreOpMetadata \<Rightarrow> string \<Rightarrow> (hailo_status + string list) option"
where
  "get_stream_names_from_vstream_name metadata vstream_name' =
     (case get_stream_names_from_vstream_name_loop (hailo_net_flow metadata) vstream_name'
             (get_all_layer_infos metadata) [] of
        None \<Rightarrow> None
      | Some results \<Rightarrow>
          if 0 < length results then Some (Inr results) else Some (Inl HAILO_NOT_FOUND))"

section \<open>Metadata per architecture\<close>

text \<open>
  \<^verbatim>\<open>m_metadata_per_arch\<close> is a \<^verbatim>\<open>std::map<uint32_t, CoreOpMetadata>\<close> (declared in
  \<^verbatim>\<open>core_op_metadata.hpp\<close>): an ordered map, here the list of its entries in ascending
  order of the keys, which is the order of iteration, so that \<^verbatim>\<open>begin()\<close> is the head of
  the list. \<open>map_assign\<close> is \<^verbatim>\<open>m[key] = value\<close>.
\<close>

type_synonym metadata_per_arch = "(32 word \<times> CoreOpMetadata) list"

fun map_assign :: "metadata_per_arch \<Rightarrow> 32 word \<Rightarrow> CoreOpMetadata \<Rightarrow> metadata_per_arch" where
  "map_assign [] key v = [(key, v)]"
| "map_assign (entry # entries) key v =
     (if key < fst entry then (key, v) # entry # entries
      else if key = fst entry then (key, v) # entries
      else entry # map_assign entries key v)"

definition add_metadata ::
  "metadata_per_arch \<Rightarrow> CoreOpMetadata \<Rightarrow> 32 word \<Rightarrow> metadata_per_arch"
where
  "add_metadata m_metadata_per_arch metadata partial_clusters_layout_bitmap =
     map_assign m_metadata_per_arch partial_clusters_layout_bitmap metadata"

text \<open>
  How a call of \<^verbatim>\<open>get_metadata\<close> ends: it returns an \<^verbatim>\<open>Expected<CoreOpMetadata>\<close>, or the
  \<^verbatim>\<open>assert\<close> fails and the program aborts.
\<close>

datatype 'a outcome = Returned 'a | Assertion_Failed

text \<open>
  \<^verbatim>\<open>get_metadata\<close>. The constant \<^verbatim>\<open>PARTIAL_CLUSTERS_LAYOUT_IGNORE\<close> is defined outside this
  file and is the parameter \<open>ignore\<close>. \<^verbatim>\<open>contains(map, key)\<close> followed by \<^verbatim>\<open>map[key]\<close> is
  the lookup \<open>map_of\<close>.
\<close>

definition get_metadata ::
  "32 word \<Rightarrow> metadata_per_arch \<Rightarrow> 32 word \<Rightarrow> (hailo_status + CoreOpMetadata) outcome"
where
  "get_metadata ignore m_metadata_per_arch partial_clusters_layout_bitmap =
     (if ignore = partial_clusters_layout_bitmap then
        (case m_metadata_per_arch of
           [] \<Rightarrow> Assertion_Failed
         | entry # _ \<Rightarrow> Returned (Inr (snd entry)))
      else
        (case map_of m_metadata_per_arch partial_clusters_layout_bitmap of
           Some result \<Rightarrow> Returned (Inr result)
         | None \<Rightarrow> Returned (Inl HAILO_INTERNAL_FAILURE)))"

text \<open>The map after a sequence of calls of \<^verbatim>\<open>add_metadata\<close> on an empty one.\<close>

definition metadata_per_arch_of :: "(CoreOpMetadata \<times> 32 word) list \<Rightarrow> metadata_per_arch" where
  "metadata_per_arch_of calls = foldl (\<lambda>m (metadata, bitmap). add_metadata m metadata bitmap) [] calls"

section \<open>Reference notions and example values\<close>

text \<open>
  The leaf layers below a layer, depth first and left to right: a layer that is not mux is
  a leaf; the layers below a mux layer are those below its predecessors, in the order of
  the predecessors.
\<close>

fun leaf_layers :: "LayerInfo \<Rightarrow> LayerInfo list"
  and leaf_layers_list :: "LayerInfo list \<Rightarrow> LayerInfo list"
where
  "leaf_layers (LayerInfo n d nn m ps dn fl) =
     (if m then leaf_layers_list ps else [LayerInfo n d nn m ps dn fl])"
| "leaf_layers_list [] = []"
| "leaf_layers_list (p # ps) = leaf_layers p @ leaf_layers_list ps"

text \<open>
  Deduplication by vstream name that keeps the first occurrence: going through the
  descriptors from the left, a descriptor is kept exactly when its name is not among the
  names \<open>seen\<close> so far, and its name is then seen.
\<close>

fun dedup_first :: "string set \<Rightarrow> hailo_vstream_info_t list \<Rightarrow> hailo_vstream_info_t list" where
  "dedup_first seen [] = []"
| "dedup_first seen (v # vs) =
     (if vstream_name v \<in> seen then dedup_first seen vs
      else v # dedup_first (insert (vstream_name v) seen) vs)"

text \<open>
  All layers of a layer tree, the root first, each followed by the trees of its
  predecessors from left to right; and the invariant of the specification that the
  predecessors are empty exactly for the layers that are not mux, at every layer of the
  tree.
\<close>

fun all_layers :: "LayerInfo \<Rightarrow> LayerInfo list"
  and all_layers_list :: "LayerInfo list \<Rightarrow> LayerInfo list"
where
  "all_layers (LayerInfo n d nn m ps dn fl) = LayerInfo n d nn m ps dn fl # all_layers_list ps"
| "all_layers_list [] = []"
| "all_layers_list (p # ps) = all_layers p @ all_layers_list ps"

fun well_formed_layer :: "LayerInfo \<Rightarrow> bool"
  and well_formed_layers :: "LayerInfo list \<Rightarrow> bool"
where
  "well_formed_layer (LayerInfo n d nn m ps dn fl) =
     ((ps = []) = (\<not> m) \<and> well_formed_layers ps)"
| "well_formed_layers [] = True"
| "well_formed_layers (p # ps) = (well_formed_layer p \<and> well_formed_layers ps)"

text \<open>
  The layers of the six edge-layer lists of a context, in the order in which
  \<open>get_context_transfer_size\<close> visits the lists.
\<close>

definition edge_layers :: "ContextMetadata \<Rightarrow> LayerInfo list" where
  "edge_layers context =
     m_boundary_input_layers context @ m_boundary_output_layers context @
     m_ddr_input_layers context @ m_ddr_output_layers context @
     m_inter_context_input_layers context @ m_inter_context_output_layers context"

text \<open>The sum of two \<^verbatim>\<open>Expected<size_t>\<close>: the first failure, or the sum of the values.\<close>

definition expected_add ::
  "hailo_status + size_t \<Rightarrow> hailo_status + size_t \<Rightarrow> hailo_status + size_t"
where
  "expected_add A B =
     (case A of
        Inl status \<Rightarrow> Inl status
      | Inr a \<Rightarrow> (case B of Inl status \<Rightarrow> Inl status | Inr b \<Rightarrow> Inr (a + b)))"

text \<open>
  The example of the specification: the mux layer \<open>M\<close> with the predecessors \<open>a\<close> (a leaf)
  and \<open>B\<close> (a mux layer with the one predecessor \<open>c\<close>).
\<close>

definition example_leaf :: "string \<Rightarrow> hailo_stream_direction_t \<Rightarrow> LayerInfo" where
  "example_leaf n d = LayerInfo n d ''net'' False [] False []"

definition example_mux :: "string \<Rightarrow> LayerInfo list \<Rightarrow> LayerInfo" where
  "example_mux n ps = LayerInfo n HAILO_D2H_STREAM ''net'' True ps False []"

definition example_M :: LayerInfo where
  "example_M =
     example_mux ''M''
       [example_leaf ''a'' HAILO_D2H_STREAM,
        example_mux ''B'' [example_leaf ''c'' HAILO_D2H_STREAM]]"

text \<open>Example contexts and core-op metadata.\<close>

definition example_context ::
  "ConfigBufferInfoMap \<Rightarrow> LayerInfo list \<Rightarrow> LayerInfo list \<Rightarrow> ContextMetadata"
where
  "example_context config_buffers inputs outputs =
     \<lparr>m_config_buffers_info = config_buffers,
      m_boundary_input_layers = inputs,
      m_boundary_output_layers = outputs,
      m_inter_context_input_layers = [],
      m_inter_context_output_layers = [],
      m_ddr_input_layers = [],
      m_ddr_output_layers = []\<rparr>"

definition example_metadata ::
  "bool \<Rightarrow> ContextMetadata list \<Rightarrow> string list \<Rightarrow> CoreOpMetadata"
where
  "example_metadata net_flow contexts sorted_output_names =
     \<lparr>m_preliminary_context = example_context [] [] [],
      m_dynamic_contexts = contexts,
      m_core_op_name = ''core_op'',
      m_sorted_output_names = sorted_output_names,
      hailo_net_flow = net_flow,
      m_sorted_network_names = [''net''],
      m_output_vstreams_infos = [],
      default_network_name = ''core_op/core_op''\<rparr>"

definition example_layer :: "string \<Rightarrow> hailo_stream_direction_t \<Rightarrow> string \<Rightarrow> LayerInfo" where
  "example_layer n d nn = LayerInfo n d nn False [] False []"

text \<open>Two dynamic contexts with the boundary layers of two networks.\<close>

definition example_two_networks :: CoreOpMetadata where
  "example_two_networks =
     example_metadata False
       [example_context [] [example_layer ''in0'' HAILO_H2D_STREAM ''net0'']
          [example_layer ''out0'' HAILO_D2H_STREAM ''net0''],
        example_context [] [example_layer ''in1'' HAILO_H2D_STREAM ''net1'']
          [example_layer ''out1'' HAILO_D2H_STREAM ''net1'']]
       [''out0'', ''out1'']"

text \<open>A fragment \<open>n\<close> of the fused detection-output layer \<open>fused\<close>.\<close>

definition example_nms_fragment :: "string \<Rightarrow> string \<Rightarrow> LayerInfo" where
  "example_nms_fragment n fused =
     LayerInfo n HAILO_D2H_STREAM ''net'' False [] True
       [LayerInfo fused HAILO_D2H_STREAM ''net'' False [] False []]"

text \<open>
  An instance of the external conversion: a fragment yields the descriptor of its fused
  layer (\<open>vstream_rest\<close> records which fragment it came from), a mux layer one descriptor
  for each demux name, any other layer its own descriptor.
\<close>

definition example_vstream_infos_from_layer_info :: "LayerInfo \<Rightarrow> hailo_vstream_info_t list" where
  "example_vstream_infos_from_layer_info layer_info =
     (if is_defused_nms layer_info then
        map (\<lambda>fused. \<lparr>vstream_name = name fused, vstream_network_name = network_name fused,
                       vstream_rest = length (name layer_info)\<rparr>)
          (take 1 (fused_nms_layer layer_info))
      else if is_mux layer_info then
        map (\<lambda>n. \<lparr>vstream_name = n, vstream_network_name = network_name layer_info,
                  vstream_rest = 0\<rparr>)
          (get_demuxes_names layer_info)
      else [\<lparr>vstream_name = name layer_info, vstream_network_name = network_name layer_info,
             vstream_rest = 0\<rparr>])"

text \<open>Net-flow models whose only boundary layer is a mux layer, or a fragment.\<close>

definition example_net_flow_mux :: CoreOpMetadata where
  "example_net_flow_mux = example_metadata True [example_context [] [] [example_M]] []"

definition example_net_flow_nms :: CoreOpMetadata where
  "example_net_flow_nms =
     example_metadata True [example_context [] [] [example_nms_fragment ''nms0'' ''nms'']] []"

text \<open>A model whose only boundary layer is a fragment without a fused layer.\<close>

definition example_nms_without_fused :: CoreOpMetadata where
  "example_nms_without_fused =
     example_metadata False
       [example_context [] [] [LayerInfo ''nms0'' HAILO_D2H_STREAM ''net'' False [] True []]] []"

text \<open>Two variants of a core-op, told apart by their sorted output names.\<close>

definition example_meta1 :: CoreOpMetadata where
  "example_meta1 = example_metadata False [] [''meta1'']"

definition example_meta2 :: CoreOpMetadata where
  "example_meta2 = example_metadata False [] [''meta2'']"

text \<open>
  An instance of the external transfer size: the length of the layer's name, and a failure
  for a layer without a name.
\<close>

definition example_transfer_size :: "LayerInfo \<Rightarrow> hailo_status + size_t" where
  "example_transfer_size layer_info =
     (if name layer_info = [] then Inl (HAILO_STATUS 1)
      else Inr (of_nat (length (name layer_info))))"

text \<open>One dynamic context with one config buffer, written once with \<open>2 ^ 31\<close> bytes.\<close>

definition example_large_config :: CoreOpMetadata where
  "example_large_config = example_metadata False [example_context [(0, [0x80000000])] [] []] []"

text \<open>
  One output layer \<open>out0\<close>, respectively two output layers \<open>out0\<close> and \<open>out1\<close>, with the
  sorted output names \<open>[out1]\<close>.
\<close>

definition example_single_output :: CoreOpMetadata where
  "example_single_output =
     example_metadata False [example_context [] [] [example_leaf ''out0'' HAILO_D2H_STREAM]]
       [''out1'']"

definition example_two_outputs :: CoreOpMetadata where
  "example_two_outputs =
     example_metadata False
       [example_context [] []
          [example_leaf ''out0'' HAILO_D2H_STREAM, example_leaf ''out1'' HAILO_D2H_STREAM]]
       [''out1'']"

section \<open>Properties of the layer tree algorithms\<close>

lemma get_demuxes_names_impl_loop_acc:
  assumes "\<And>p res. p \<in> set ps \<Longrightarrow> get_demuxes_names_impl p res = res @ f p"
  shows "get_demuxes_names_impl_loop ps res = res @ concat (map f ps)"
  using assms by (induction ps arbitrary: res) simp_all

lemma get_demuxes_names_impl_acc:
  "get_demuxes_names_impl info res = res @ get_demuxes_names_impl info []"
proof (induction info arbitrary: res)
  case (LayerInfo n d nn m ps dn fl)
  show ?case
  proof (cases m)
    case False
    then show ?thesis by simp
  next
    case True
    have step: "get_demuxes_names_impl_loop ps r =
        r @ concat (map (\<lambda>p. get_demuxes_names_impl p []) ps)" for r
      by (rule get_demuxes_names_impl_loop_acc) (rule LayerInfo.IH(1))
    show ?thesis using True by (simp add: step[of res] step[of "[]"])
  qed
qed

lemma get_demuxes_names_impl_loop_concat:
  "get_demuxes_names_impl_loop ps res = res @ concat (map get_demuxes_names ps)"
  unfolding get_demuxes_names_def
  by (rule get_demuxes_names_impl_loop_acc) (rule get_demuxes_names_impl_acc)

lemma get_demuxes_names_unfold:
  "get_demuxes_names info =
     (if is_mux info then concat (map get_demuxes_names (predecessor info)) else [name info])"
  by (cases info)
    (simp add: get_demuxes_names_impl_loop_concat
      get_demuxes_names_def[of "LayerInfo _ _ _ _ _ _ _"])

lemma leaf_layers_list_concat: "leaf_layers_list ps = concat (map leaf_layers ps)"
  by (induction ps) simp_all

lemma get_demuxes_names_leaf_layers: "get_demuxes_names info = map name (leaf_layers info)"
proof (induction info)
  case (LayerInfo n d nn m ps dn fl)
  have eq: "map get_demuxes_names ps = map (\<lambda>p. map name (leaf_layers p)) ps"
    using LayerInfo.IH(1) by simp
  show ?case
    by (simp add: get_demuxes_names_unfold[of "LayerInfo n d nn m ps dn fl"]
        leaf_layers_list_concat map_concat o_def eq)
qed

lemma is_edge_under_mux_loop_True:
  "is_edge_under_mux_loop True ps e = (\<exists>p \<in> set ps. is_edge_under_mux p e)"
  by (induction ps) simp_all

lemma is_edge_under_mux_demuxes: "is_edge_under_mux info e = (e \<in> set (get_demuxes_names info))"
proof (induction info)
  case (LayerInfo n d nn m ps dn fl)
  then show ?case
    by (simp add: is_edge_under_mux_loop_True
        get_demuxes_names_unfold[of "LayerInfo n d nn m ps dn fl"])
qed

lemma is_edge_under_mux_simplified_not_mux:
  "\<not> is_mux p \<Longrightarrow> is_edge_under_mux_simplified p e = (e = name p)"
  by (cases p) simp

lemma is_edge_under_mux_simplified_loop_ex:
  "is_edge_under_mux_simplified_loop ps e = (\<exists>p \<in> set ps. is_edge_under_mux_simplified p e)"
  by (induction ps) (auto simp: is_edge_under_mux_simplified_not_mux)

lemma leaf_layers_well_formed:
  "well_formed_layer L \<Longrightarrow> leaf_layers L = filter (\<lambda>l. predecessor l = []) (all_layers L)"
  "well_formed_layers ps \<Longrightarrow>
     leaf_layers_list ps = filter (\<lambda>l. predecessor l = []) (all_layers_list ps)"
  by (induction L and ps rule: leaf_layers_leaf_layers_list.induct) auto

lemma example_M_demuxes: "get_demuxes_names example_M = [''a'', ''c'']"
  by (simp add: example_M_def example_mux_def example_leaf_def get_demuxes_names_def)

text \<open>
  C6: \<open>is_edge_under_mux L name\<close> is true if and only if \<open>name\<close> is an element of
  \<open>get_demuxes_names L\<close>. This holds for every layer tree and every name; that the
  predecessors are empty exactly for the layers that are not mux is not needed.
\<close>

theorem C6_is_edge_under_mux_iff_in_demuxes_names:
  "is_edge_under_mux L edge_name \<longleftrightarrow> edge_name \<in> set (get_demuxes_names L)"
  by (rule is_edge_under_mux_demuxes)

theorem C6_witness:
  "is_edge_under_mux example_M ''c'' \<and> ''c'' \<in> set (get_demuxes_names example_M) \<and>
   \<not> is_edge_under_mux example_M ''z'' \<and> ''z'' \<notin> set (get_demuxes_names example_M)"
  using C6_is_edge_under_mux_iff_in_demuxes_names[of example_M "''c''"]
    C6_is_edge_under_mux_iff_in_demuxes_names[of example_M "''z''"]
  by (simp add: example_M_demuxes)

text \<open>
  C7: for a layer \<open>L\<close> that is not mux, \<open>get_demuxes_names L\<close> is the one-element sequence
  \<open>[name L]\<close>; for a mux layer it is the concatenation, in the order of the predecessors,
  of the sequences of its predecessors. So it lists the names of the leaf layers below
  \<open>L\<close> depth first and left to right, and its length is their number. In a tree where the
  predecessors are empty exactly for the layers that are not mux, these are the layers of
  the tree without predecessors.
\<close>

theorem C7_get_demuxes_names:
  "get_demuxes_names L =
     (if is_mux L then concat (map get_demuxes_names (predecessor L)) else [name L]) \<and>
   get_demuxes_names L = map name (leaf_layers L) \<and>
   length (get_demuxes_names L) = length (leaf_layers L) \<and>
   (well_formed_layer L \<longrightarrow>
      get_demuxes_names L = map name (filter (\<lambda>l. predecessor l = []) (all_layers L)))"
proof -
  have names: "get_demuxes_names L = map name (leaf_layers L)"
    by (rule get_demuxes_names_leaf_layers)
  then have "length (get_demuxes_names L) = length (leaf_layers L)"
    by simp
  moreover have "well_formed_layer L \<longrightarrow>
      get_demuxes_names L = map name (filter (\<lambda>l. predecessor l = []) (all_layers L))"
    using names leaf_layers_well_formed(1)[of L] by simp
  ultimately show ?thesis
    using names get_demuxes_names_unfold[of L] by blast
qed

theorem C7_witness:
  "get_demuxes_names example_M = [''a'', ''c''] \<and>
   get_demuxes_names example_M = concat (map get_demuxes_names (predecessor example_M)) \<and>
   length (leaf_layers example_M) = 2 \<and>
   well_formed_layer example_M \<and>
   map name (filter (\<lambda>l. predecessor l = []) (all_layers example_M)) = [''a'', ''c'']"
  using C7_get_demuxes_names[of example_M]
  by (simp add: example_M_demuxes) (simp add: example_M_def example_mux_def example_leaf_def)

text \<open>
  C9: \<open>is_edge_under_mux\<close>, whose loop tests \<^verbatim>\<open>info.is_mux\<close> again for every predecessor,
  returns the same boolean as the simplified function, which recurses into a predecessor
  that is mux and compares the name of one that is not.
\<close>

theorem C9_is_edge_under_mux_simplified:
  "is_edge_under_mux L edge_name = is_edge_under_mux_simplified L edge_name"
proof (induction L)
  case (LayerInfo n d nn m ps dn fl)
  then show ?case
    by (simp add: is_edge_under_mux_loop_True is_edge_under_mux_simplified_loop_ex)
qed

theorem C9_witness:
  "is_edge_under_mux_simplified example_M ''c'' \<and>
   \<not> is_edge_under_mux_simplified example_M ''z''"
  using C9_is_edge_under_mux_simplified[of example_M "''c''"]
    C9_is_edge_under_mux_simplified[of example_M "''z''"]
  by (simp add: example_M_def example_mux_def example_leaf_def)

section \<open>Properties of the boundary layer queries\<close>

lemma foldl_append_filter:
  "foldl (\<lambda>res x. if P x then res @ [x] else res) res xs = res @ filter P xs"
  by (induction xs arbitrary: res) simp_all

lemma foldl_append_all: "foldl (\<lambda>res x. res @ [x]) res xs = res @ xs"
  by (induction xs arbitrary: res) simp_all

lemma foldl_contexts_filter:
  "foldl (\<lambda>res context. foldl (\<lambda>res x. if P x then res @ [x] else res) res (f context)) res contexts
     = res @ filter P (concat (map f contexts))"
  by (induction contexts arbitrary: res) (simp_all add: foldl_append_filter)

lemma foldl_contexts_all:
  "foldl (\<lambda>res context. foldl (\<lambda>res x. res @ [x]) res (f context)) res contexts
     = res @ concat (map f contexts)"
  by (induction contexts arbitrary: res) (simp_all add: foldl_append_all)

lemma get_input_layer_infos_concat:
  "get_input_layer_infos m = concat (map m_boundary_input_layers (m_dynamic_contexts m))"
  by (simp add: get_input_layer_infos_def foldl_contexts_all)

lemma get_output_layer_infos_concat:
  "get_output_layer_infos m = concat (map m_boundary_output_layers (m_dynamic_contexts m))"
  by (simp add: get_output_layer_infos_def foldl_contexts_all)

lemma get_input_layer_infos_of_network_filter:
  "get_input_layer_infos_of_network m n =
     (if filter (\<lambda>l. network_name l = n \<or> n = [] \<or> n = default_network_name m)
           (get_input_layer_infos m) = []
      then Inl HAILO_NOT_FOUND
      else Inr (filter (\<lambda>l. network_name l = n \<or> n = [] \<or> n = default_network_name m)
           (get_input_layer_infos m)))"
  by (simp add: get_input_layer_infos_of_network_def foldl_contexts_filter
      get_input_layer_infos_concat Let_def)

lemma get_output_layer_infos_of_network_filter:
  "get_output_layer_infos_of_network m n =
     (if filter (\<lambda>l. network_name l = n \<or> n = [] \<or> n = default_network_name m)
           (get_output_layer_infos m) = []
      then Inl HAILO_NOT_FOUND
      else Inr (filter (\<lambda>l. network_name l = n \<or> n = [] \<or> n = default_network_name m)
           (get_output_layer_infos m)))"
  by (simp add: get_output_layer_infos_of_network_def foldl_contexts_filter
      get_output_layer_infos_concat Let_def)

lemma get_all_layer_infos_append:
  "get_all_layer_infos m = get_input_layer_infos m @ get_output_layer_infos m"
  by (simp add: get_all_layer_infos_def)

lemma example_two_networks_inputs:
  "get_input_layer_infos example_two_networks =
     [example_layer ''in0'' HAILO_H2D_STREAM ''net0'', example_layer ''in1'' HAILO_H2D_STREAM ''net1'']"
  by (simp add: get_input_layer_infos_concat example_two_networks_def example_metadata_def
      example_context_def)

lemma example_two_networks_outputs:
  "get_output_layer_infos example_two_networks =
     [example_layer ''out0'' HAILO_D2H_STREAM ''net0'', example_layer ''out1'' HAILO_D2H_STREAM ''net1'']"
  by (simp add: get_output_layer_infos_concat example_two_networks_def example_metadata_def
      example_context_def)

text \<open>
  C5: \<open>get_input_layer_infos_of_network\<close> and \<open>get_output_layer_infos_of_network\<close> return the
  boundary layers of their direction, in the order of the dynamic contexts, that match the
  requested name: a layer matches when its network name is the requested name, or the
  requested name is empty, or the requested name is the default network name. For the
  empty name and the default network name these are all the layers of the direction. Both
  fail with \<open>HAILO_NOT_FOUND\<close> exactly when no layer matches: so for a name that is neither
  empty nor the default and that no layer carries, and for a model without dynamic
  contexts whatever the name.
\<close>

theorem C5_layer_infos_of_network:
  "get_input_layer_infos_of_network m n =
     (if filter (\<lambda>l. network_name l = n \<or> n = [] \<or> n = default_network_name m)
           (concat (map m_boundary_input_layers (m_dynamic_contexts m))) = []
      then Inl HAILO_NOT_FOUND
      else Inr (filter (\<lambda>l. network_name l = n \<or> n = [] \<or> n = default_network_name m)
           (concat (map m_boundary_input_layers (m_dynamic_contexts m))))) \<and>
   get_output_layer_infos_of_network m n =
     (if filter (\<lambda>l. network_name l = n \<or> n = [] \<or> n = default_network_name m)
           (concat (map m_boundary_output_layers (m_dynamic_contexts m))) = []
      then Inl HAILO_NOT_FOUND
      else Inr (filter (\<lambda>l. network_name l = n \<or> n = [] \<or> n = default_network_name m)
           (concat (map m_boundary_output_layers (m_dynamic_contexts m))))) \<and>
   (n = [] \<or> n = default_network_name m \<longrightarrow>
      get_input_layer_infos_of_network m n =
        (if get_input_layer_infos m = [] then Inl HAILO_NOT_FOUND
         else Inr (get_input_layer_infos m)) \<and>
      get_output_layer_infos_of_network m n =
        (if get_output_layer_infos m = [] then Inl HAILO_NOT_FOUND
         else Inr (get_output_layer_infos m))) \<and>
   (n \<noteq> [] \<and> n \<noteq> default_network_name m \<and>
    n \<notin> network_name ` set (get_input_layer_infos m) \<longrightarrow>
      get_input_layer_infos_of_network m n = Inl HAILO_NOT_FOUND) \<and>
   (n \<noteq> [] \<and> n \<noteq> default_network_name m \<and>
    n \<notin> network_name ` set (get_output_layer_infos m) \<longrightarrow>
      get_output_layer_infos_of_network m n = Inl HAILO_NOT_FOUND) \<and>
   (m_dynamic_contexts m = [] \<longrightarrow>
      get_input_layer_infos_of_network m n = Inl HAILO_NOT_FOUND \<and>
      get_output_layer_infos_of_network m n = Inl HAILO_NOT_FOUND)"
proof -
  let ?P = "\<lambda>l. network_name l = n \<or> n = [] \<or> n = default_network_name m"
  have unknown: "filter ?P ls = []"
    if "n \<noteq> [] \<and> n \<noteq> default_network_name m \<and> n \<notin> network_name ` set ls" for ls
    using that by (auto simp: filter_empty_conv)
  have every: "filter ?P ls = ls" if "n = [] \<or> n = default_network_name m" for ls
    using that by auto
  have inputs: "get_input_layer_infos_of_network m n =
      (if filter ?P (get_input_layer_infos m) = [] then Inl HAILO_NOT_FOUND
       else Inr (filter ?P (get_input_layer_infos m)))"
    by (rule get_input_layer_infos_of_network_filter)
  have outputs: "get_output_layer_infos_of_network m n =
      (if filter ?P (get_output_layer_infos m) = [] then Inl HAILO_NOT_FOUND
       else Inr (filter ?P (get_output_layer_infos m)))"
    by (rule get_output_layer_infos_of_network_filter)
  have c1: "get_input_layer_infos_of_network m n =
     (if filter ?P (concat (map m_boundary_input_layers (m_dynamic_contexts m))) = []
      then Inl HAILO_NOT_FOUND
      else Inr (filter ?P (concat (map m_boundary_input_layers (m_dynamic_contexts m)))))"
    using inputs by (simp only: get_input_layer_infos_concat)
  have c2: "get_output_layer_infos_of_network m n =
     (if filter ?P (concat (map m_boundary_output_layers (m_dynamic_contexts m))) = []
      then Inl HAILO_NOT_FOUND
      else Inr (filter ?P (concat (map m_boundary_output_layers (m_dynamic_contexts m)))))"
    using outputs by (simp only: get_output_layer_infos_concat)
  have c3: "n = [] \<or> n = default_network_name m \<longrightarrow>
      get_input_layer_infos_of_network m n =
        (if get_input_layer_infos m = [] then Inl HAILO_NOT_FOUND
         else Inr (get_input_layer_infos m)) \<and>
      get_output_layer_infos_of_network m n =
        (if get_output_layer_infos m = [] then Inl HAILO_NOT_FOUND
         else Inr (get_output_layer_infos m))"
    by (simp only: inputs outputs every) simp
  have c4: "n \<noteq> [] \<and> n \<noteq> default_network_name m \<and>
      n \<notin> network_name ` set (get_input_layer_infos m) \<longrightarrow>
      get_input_layer_infos_of_network m n = Inl HAILO_NOT_FOUND"
    using unknown[of "get_input_layer_infos m"] by (simp only: inputs) simp
  have c5: "n \<noteq> [] \<and> n \<noteq> default_network_name m \<and>
      n \<notin> network_name ` set (get_output_layer_infos m) \<longrightarrow>
      get_output_layer_infos_of_network m n = Inl HAILO_NOT_FOUND"
    using unknown[of "get_output_layer_infos m"] by (simp only: outputs) simp
  have c6: "m_dynamic_contexts m = [] \<longrightarrow>
      get_input_layer_infos_of_network m n = Inl HAILO_NOT_FOUND \<and>
      get_output_layer_infos_of_network m n = Inl HAILO_NOT_FOUND"
    by (simp add: c1 c2)
  from c1 c2 c3 c4 c5 c6 show ?thesis by (intro conjI)
qed

theorem C5_witness:
  "get_input_layer_infos_of_network example_two_networks ''net1'' =
     Inr [example_layer ''in1'' HAILO_H2D_STREAM ''net1''] \<and>
   get_output_layer_infos_of_network example_two_networks ''net1'' =
     Inr [example_layer ''out1'' HAILO_D2H_STREAM ''net1''] \<and>
   get_input_layer_infos_of_network example_two_networks [] =
     Inr [example_layer ''in0'' HAILO_H2D_STREAM ''net0'',
          example_layer ''in1'' HAILO_H2D_STREAM ''net1''] \<and>
   get_output_layer_infos_of_network example_two_networks ''core_op/core_op'' =
     Inr [example_layer ''out0'' HAILO_D2H_STREAM ''net0'',
          example_layer ''out1'' HAILO_D2H_STREAM ''net1''] \<and>
   get_input_layer_infos_of_network example_two_networks ''net7'' = Inl HAILO_NOT_FOUND \<and>
   get_output_layer_infos_of_network example_two_networks ''net7'' = Inl HAILO_NOT_FOUND \<and>
   get_input_layer_infos_of_network (example_metadata False [] []) [] = Inl HAILO_NOT_FOUND \<and>
   get_output_layer_infos_of_network (example_metadata False [] []) [] = Inl HAILO_NOT_FOUND"
proof -
  have dnn: "default_network_name example_two_networks = ''core_op/core_op''"
    by (simp add: example_two_networks_def example_metadata_def)
  have ctx: "m_dynamic_contexts (example_metadata False [] []) = []"
    by (simp add: example_metadata_def)
  have names: "''net7'' \<notin> network_name ` set (get_input_layer_infos example_two_networks)"
    "''net7'' \<notin> network_name ` set (get_output_layer_infos example_two_networks)"
    by (simp_all add: example_two_networks_inputs example_two_networks_outputs example_layer_def)
  show ?thesis
    using C5_layer_infos_of_network[of example_two_networks "''net1''"]
      C5_layer_infos_of_network[of example_two_networks "[]"]
      C5_layer_infos_of_network[of example_two_networks "''core_op/core_op''"]
      C5_layer_infos_of_network[of example_two_networks "''net7''"]
      C5_layer_infos_of_network[of "example_metadata False [] []" "[]"]
    unfolding dnn ctx
    using names
    by (simp add: example_two_networks_inputs example_two_networks_outputs
        get_input_layer_infos_concat[symmetric] get_output_layer_infos_concat[symmetric]
        example_layer_def)
qed

section \<open>Properties of the virtual stream conversion\<close>

lemma vstream_info_already_in_vector_iff:
  "vstream_info_already_in_vector vec n \<longleftrightarrow> n \<in> vstream_name ` set vec"
  by (induction vec) auto

lemma foldl_nested_concat:
  "foldl (\<lambda>res x. foldl g res (f x)) res xs = foldl g res (concat (map f xs))"
  by (induction xs arbitrary: res) simp_all

lemma convert_flat:
  "convert_layer_infos_to_vstream_infos conv layers =
     foldl push_if_new [] (concat (map conv layers))"
  unfolding convert_layer_infos_to_vstream_infos_def by (rule foldl_nested_concat)

lemma push_if_new_old:
  "vstream_info_already_in_vector res (vstream_name v) \<Longrightarrow>
   foldl push_if_new res (v # vs) = foldl push_if_new res vs"
  by (simp add: push_if_new_def)

lemma push_if_new_new:
  "\<not> vstream_info_already_in_vector res (vstream_name v) \<Longrightarrow>
   foldl push_if_new res (v # vs) = foldl push_if_new (res @ [v]) vs"
  by (simp add: push_if_new_def)

lemma push_if_new_distinct:
  "distinct (map vstream_name res) \<Longrightarrow> distinct (map vstream_name (foldl push_if_new res vs))"
proof (induction vs arbitrary: res)
  case Nil
  then show ?case by simp
next
  case (Cons v vs)
  show ?case
  proof (cases "vstream_info_already_in_vector res (vstream_name v)")
    case True
    show ?thesis
      unfolding push_if_new_old[OF True] using Cons.prems by (rule Cons.IH)
  next
    case False
    with Cons.prems have "distinct (map vstream_name (res @ [v]))"
      by (simp add: vstream_info_already_in_vector_iff)
    then show ?thesis
      unfolding push_if_new_new[OF False] by (rule Cons.IH)
  qed
qed

lemma push_if_new_subseq:
  "\<exists>ys. foldl push_if_new res vs = res @ ys \<and> subseq ys vs"
proof (induction vs arbitrary: res)
  case Nil
  then show ?case by simp
next
  case (Cons v vs)
  show ?case
  proof (cases "vstream_info_already_in_vector res (vstream_name v)")
    case True
    from Cons.IH[of res] obtain ys where ys: "foldl push_if_new res vs = res @ ys" "subseq ys vs"
      by blast
    from ys(2) have "subseq ys (v # vs)"
      by (rule list_emb_Cons)
    with ys(1) show ?thesis
      unfolding push_if_new_old[OF True] by blast
  next
    case False
    from Cons.IH[of "res @ [v]"] obtain ys
      where ys: "foldl push_if_new (res @ [v]) vs = (res @ [v]) @ ys" "subseq ys vs"
      by blast
    from ys have "foldl push_if_new (res @ [v]) vs = res @ (v # ys) \<and> subseq (v # ys) (v # vs)"
      by simp
    then show ?thesis
      unfolding push_if_new_new[OF False] by blast
  qed
qed

lemma find_append: "find P (xs @ ys) = (case find P xs of None \<Rightarrow> find P ys | Some x \<Rightarrow> Some x)"
  by (induction xs) simp_all

lemma push_if_new_find:
  "find (\<lambda>r. vstream_name r = x) (foldl push_if_new res vs) =
   find (\<lambda>u. vstream_name u = x) (res @ vs)"
proof (induction vs arbitrary: res)
  case Nil
  then show ?case by simp
next
  case (Cons v vs)
  show ?case
  proof (cases "vstream_info_already_in_vector res (vstream_name v)")
    case True
    then have in_res: "vstream_name v \<in> vstream_name ` set res"
      by (simp add: vstream_info_already_in_vector_iff)
    have "find (\<lambda>u. vstream_name u = x) (res @ v # vs) = find (\<lambda>u. vstream_name u = x) (res @ vs)"
    proof (cases "vstream_name v = x")
      case True
      with in_res have "find (\<lambda>u. vstream_name u = x) res \<noteq> None"
        by (auto simp: find_None_iff)
      then show ?thesis by (auto simp: find_append)
    next
      case False
      then show ?thesis by (simp add: find_append split: option.splits)
    qed
    with Cons.IH[of res] show ?thesis
      unfolding push_if_new_old[OF True] by simp
  next
    case False
    from Cons.IH[of "res @ [v]"] show ?thesis
      unfolding push_if_new_new[OF False] by simp
  qed
qed

lemma distinct_map_filter_one:
  "distinct (map f xs) \<Longrightarrow> x \<in> f ` set xs \<Longrightarrow> length (filter (\<lambda>r. f r = x) xs) = 1"
proof (induction xs)
  case Nil
  then show ?case by simp
next
  case (Cons a xs)
  show ?case
  proof (cases "f a = x")
    case True
    from Cons.prems(1) have "f a \<notin> f ` set xs" by simp
    with True have "filter (\<lambda>r. f r = x) xs = []"
      unfolding filter_empty_conv by (metis imageI)
    with True show ?thesis by simp
  next
    case False
    with Cons show ?thesis by auto
  qed
qed

lemma convert_distinct:
  "distinct (map vstream_name (convert_layer_infos_to_vstream_infos conv layers))"
  unfolding convert_flat by (rule push_if_new_distinct) simp

lemma convert_subseq:
  "subseq (convert_layer_infos_to_vstream_infos conv layers) (concat (map conv layers))"
  unfolding convert_flat using push_if_new_subseq[of "[]" "concat (map conv layers)"] by auto

lemma convert_find:
  "find (\<lambda>r. vstream_name r = x) (convert_layer_infos_to_vstream_infos conv layers) =
   find (\<lambda>u. vstream_name u = x) (concat (map conv layers))"
  unfolding convert_flat using push_if_new_find[of x "[]" "concat (map conv layers)"] by simp

lemma convert_names:
  "vstream_name ` set (convert_layer_infos_to_vstream_infos conv layers) =
   vstream_name ` set (concat (map conv layers))"
proof -
  have "(x \<in> vstream_name ` set (convert_layer_infos_to_vstream_infos conv layers)) =
        (x \<in> vstream_name ` set (concat (map conv layers)))" for x
    using convert_find[of x conv layers]
      find_None_iff[of "\<lambda>r. vstream_name r = x" "convert_layer_infos_to_vstream_infos conv layers"]
      find_None_iff[of "\<lambda>r. vstream_name r = x" "concat (map conv layers)"]
    by (simp only: image_iff) metis
  then show ?thesis by blast
qed

lemma push_if_new_dedup_first:
  "foldl push_if_new res vs = res @ dedup_first (vstream_name ` set res) vs"
proof (induction vs arbitrary: res)
  case Nil
  then show ?case by simp
next
  case (Cons v vs)
  show ?case
  proof (cases "vstream_info_already_in_vector res (vstream_name v)")
    case True
    then have "vstream_name v \<in> vstream_name ` set res"
      by (simp add: vstream_info_already_in_vector_iff)
    then show ?thesis
      unfolding push_if_new_old[OF True] Cons.IH[of res] by simp
  next
    case False
    then have "vstream_name v \<notin> vstream_name ` set res"
      by (simp add: vstream_info_already_in_vector_iff)
    then show ?thesis
      unfolding push_if_new_new[OF False] Cons.IH[of "res @ [v]"] by simp
  qed
qed

lemma convert_dedup_first:
  "convert_layer_infos_to_vstream_infos conv layers =
     dedup_first {} (concat (map conv layers))"
  unfolding convert_flat using push_if_new_dedup_first[of "[]" "concat (map conv layers)"]
  by simp

text \<open>
  C8: \<open>convert_layer_infos_to_vstream_infos\<close> deduplicates the concatenation of the per-layer
  conversion results by vstream name and keeps the first occurrence of each name: it is
  \<open>dedup_first\<close> of the concatenation, starting with no name seen. So the names of the
  result are distinct, the result is a subsequence of the concatenation (the order is
  kept), and for every name the first descriptor of that name in the result is the first
  descriptor of that name in the concatenation. In particular, for a non-empty list of
  layers whose conversions all hold a descriptor named \<open>fused\<close> (the fragments of one fused
  layer), the result holds exactly one descriptor named \<open>fused\<close>.
\<close>

theorem C8_convert_dedup:
  "convert_layer_infos_to_vstream_infos conv layers =
     dedup_first {} (concat (map conv layers)) \<and>
   distinct (map vstream_name (convert_layer_infos_to_vstream_infos conv layers)) \<and>
   subseq (convert_layer_infos_to_vstream_infos conv layers) (concat (map conv layers)) \<and>
   (\<forall>x. find (\<lambda>r. vstream_name r = x) (convert_layer_infos_to_vstream_infos conv layers) =
        find (\<lambda>u. vstream_name u = x) (concat (map conv layers))) \<and>
   (layers \<noteq> [] \<and> (\<forall>l \<in> set layers. fused \<in> vstream_name ` set (conv l)) \<longrightarrow>
      length (filter (\<lambda>r. vstream_name r = fused)
        (convert_layer_infos_to_vstream_infos conv layers)) = 1)"
proof -
  have "length (filter (\<lambda>r. vstream_name r = fused)
        (convert_layer_infos_to_vstream_infos conv layers)) = 1"
    if "layers \<noteq> [] \<and> (\<forall>l \<in> set layers. fused \<in> vstream_name ` set (conv l))"
  proof -
    from that obtain l where "l \<in> set layers" "fused \<in> vstream_name ` set (conv l)"
      by (cases layers) auto
    then have "fused \<in> vstream_name ` set (concat (map conv layers))"
      by auto
    then have "fused \<in> vstream_name ` set (convert_layer_infos_to_vstream_infos conv layers)"
      by (simp only: convert_names)
    with convert_distinct show ?thesis
      by (rule distinct_map_filter_one)
  qed
  with convert_dedup_first convert_distinct convert_subseq convert_find show ?thesis
    by blast
qed

theorem C8_witness:
  "convert_layer_infos_to_vstream_infos example_vstream_infos_from_layer_info
     [example_nms_fragment ''nms0'' ''nms'', example_nms_fragment ''nms_1'' ''nms''] =
     [\<lparr>vstream_name = ''nms'', vstream_network_name = ''net'', vstream_rest = 4\<rparr>] \<and>
   length (filter (\<lambda>r. vstream_name r = ''nms'')
     (convert_layer_infos_to_vstream_infos example_vstream_infos_from_layer_info
        [example_nms_fragment ''nms0'' ''nms'', example_nms_fragment ''nms_1'' ''nms''])) = 1 \<and>
   convert_layer_infos_to_vstream_infos example_vstream_infos_from_layer_info
     [example_nms_fragment ''nms0'' ''nms'', example_leaf ''x'' HAILO_D2H_STREAM,
      example_nms_fragment ''nms_1'' ''nms''] =
     [\<lparr>vstream_name = ''nms'', vstream_network_name = ''net'', vstream_rest = 4\<rparr>,
      \<lparr>vstream_name = ''x'', vstream_network_name = ''net'', vstream_rest = 0\<rparr>] \<and>
   dedup_first {}
     (concat (map example_vstream_infos_from_layer_info
        [example_nms_fragment ''nms0'' ''nms'', example_leaf ''x'' HAILO_D2H_STREAM,
         example_nms_fragment ''nms_1'' ''nms''])) =
     [\<lparr>vstream_name = ''nms'', vstream_network_name = ''net'', vstream_rest = 4\<rparr>,
      \<lparr>vstream_name = ''x'', vstream_network_name = ''net'', vstream_rest = 0\<rparr>]"
  using C8_convert_dedup[of example_vstream_infos_from_layer_info
      "[example_nms_fragment ''nms0'' ''nms'', example_nms_fragment ''nms_1'' ''nms'']" "''nms''"]
    C8_convert_dedup[of example_vstream_infos_from_layer_info
      "[example_nms_fragment ''nms0'' ''nms'', example_leaf ''x'' HAILO_D2H_STREAM,
        example_nms_fragment ''nms_1'' ''nms'']" "''nms''"]
  by (simp add: convert_layer_infos_to_vstream_infos_def push_if_new_def
      example_vstream_infos_from_layer_info_def example_nms_fragment_def example_leaf_def)

section \<open>Properties of the name resolution\<close>

lemma get_vstream_names_from_stream_name_loop_in_bounds:
  "\<forall>l \<in> set ls. is_defused_nms l \<longrightarrow> fused_nms_layer l \<noteq> [] \<Longrightarrow>
   get_vstream_names_from_stream_name_loop ls s \<noteq> None"
  by (induction ls) (auto split: list.splits)

lemma get_stream_names_from_vstream_name_body_cases:
  "get_stream_names_from_vstream_name_body nf v l results =
     (if \<not> is_mux l \<and> is_defused_nms l \<and> fused_nms_layer l = [] then None
      else if (if is_mux l then is_edge_under_mux l v
               else if is_defused_nms l then v = name (hd (fused_nms_layer l))
               else (nf \<and> direction l = HAILO_D2H_STREAM) \<or> v = name l)
           then Some (results @ [name l]) else Some results)"
  by (auto simp: get_stream_names_from_vstream_name_body_def split: list.splits)

lemma get_stream_names_from_vstream_name_loop_filter:
  assumes "\<And>l results. get_stream_names_from_vstream_name_body nf v l results =
     (if B l then None else if C l then Some (results @ [name l]) else Some results)"
  shows "get_stream_names_from_vstream_name_loop nf v ls results =
     (if \<exists>l \<in> set ls. B l then None else Some (results @ map name (filter C ls)))"
  by (induction ls arbitrary: results) (simp_all add: assms)

lemma get_stream_names_from_vstream_name_loop_cases:
  "get_stream_names_from_vstream_name_loop nf v ls results =
     (if \<exists>l \<in> set ls. \<not> is_mux l \<and> is_defused_nms l \<and> fused_nms_layer l = [] then None
      else Some (results @ map name (filter
        (\<lambda>l. if is_mux l then is_edge_under_mux l v
             else if is_defused_nms l then v = name (hd (fused_nms_layer l))
             else (nf \<and> direction l = HAILO_D2H_STREAM) \<or> v = name l) ls)))"
  by (rule get_stream_names_from_vstream_name_loop_filter[where B = "\<lambda>l. \<not> is_mux l \<and> is_defused_nms l \<and> fused_nms_layer l = []"])
     (rule get_stream_names_from_vstream_name_body_cases)

lemma get_stream_names_from_vstream_name_filter:
  assumes "\<And>l results.
     get_stream_names_from_vstream_name_body (hailo_net_flow m) v l results =
     (if B l then None else if C l then Some (results @ [name l]) else Some results)"
  shows "get_stream_names_from_vstream_name m v =
     (if \<exists>l \<in> set (get_all_layer_infos m). B l then None
      else Some (if filter C (get_all_layer_infos m) = [] then Inl HAILO_NOT_FOUND
                 else Inr (map name (filter C (get_all_layer_infos m)))))"
  by (simp add: get_stream_names_from_vstream_name_def get_stream_names_from_vstream_name_loop_filter[where B = B and C = C, OF assms])

lemma get_vstream_names_from_stream_name_loop_None:
  "get_vstream_names_from_stream_name_loop ls s = None \<Longrightarrow>
   \<exists>l \<in> set ls. name l = s \<and> is_defused_nms l \<and> fused_nms_layer l = []"
  by (induction ls) (auto split: if_splits list.splits)

lemma example_net_flow_mux_layers: "get_all_layer_infos example_net_flow_mux = [example_M]"
  by (simp add: get_all_layer_infos_append get_input_layer_infos_concat
      get_output_layer_infos_concat example_net_flow_mux_def example_metadata_def
      example_context_def)

lemma example_net_flow_nms_layers:
  "get_all_layer_infos example_net_flow_nms = [example_nms_fragment ''nms0'' ''nms'']"
  by (simp add: get_all_layer_infos_append get_input_layer_infos_concat
      get_output_layer_infos_concat example_net_flow_nms_def example_metadata_def
      example_context_def)

text \<open>
  C3, as amended: \<open>get_stream_names_from_vstream_name\<close> tests a layer for mux first, for
  defused NMS second, and only then for net-flow. Unless a fragment without a fused layer
  is read (\<open>None\<close>), the result holds the names of the layers that contribute, in order: a
  mux layer contributes when the requested name is under it, a fragment when the requested
  name is the name of its fused layer, any other layer when \<open>hailo_net_flow\<close> is set and it
  is device-to-host, or when its name is the requested name. So with \<open>hailo_net_flow\<close> set a
  device-to-host layer that is neither mux nor a fragment contributes its name whatever
  the requested name, and with \<open>hailo_net_flow\<close> unset a layer that is neither mux nor a
  fragment contributes its name exactly when it is the requested name. The operation fails
  with \<open>HAILO_NOT_FOUND\<close> exactly when no layer contributes.
\<close>

theorem C3_stream_names_from_vstream_name:
  "get_stream_names_from_vstream_name m v =
     (if \<exists>l \<in> set (get_all_layer_infos m).
           \<not> is_mux l \<and> is_defused_nms l \<and> fused_nms_layer l = []
      then None
      else Some
        (if filter
              (\<lambda>l. if is_mux l then is_edge_under_mux l v
                   else if is_defused_nms l then v = name (hd (fused_nms_layer l))
                   else (hailo_net_flow m \<and> direction l = HAILO_D2H_STREAM) \<or> v = name l)
              (get_all_layer_infos m) = []
         then Inl HAILO_NOT_FOUND
         else Inr (map name (filter
              (\<lambda>l. if is_mux l then is_edge_under_mux l v
                   else if is_defused_nms l then v = name (hd (fused_nms_layer l))
                   else (hailo_net_flow m \<and> direction l = HAILO_D2H_STREAM) \<or> v = name l)
              (get_all_layer_infos m))))) \<and>
   (\<not> is_mux l \<and> \<not> is_defused_nms l \<and> direction l = HAILO_D2H_STREAM \<longrightarrow>
      get_stream_names_from_vstream_name_body True v l results = Some (results @ [name l])) \<and>
   (\<not> is_mux l \<and> \<not> is_defused_nms l \<longrightarrow>
      get_stream_names_from_vstream_name_body False v l results =
        Some (if v = name l then results @ [name l] else results))"
proof -
  have whole: "get_stream_names_from_vstream_name m v =
     (if \<exists>l \<in> set (get_all_layer_infos m).
           \<not> is_mux l \<and> is_defused_nms l \<and> fused_nms_layer l = []
      then None
      else Some
        (if filter
              (\<lambda>l. if is_mux l then is_edge_under_mux l v
                   else if is_defused_nms l then v = name (hd (fused_nms_layer l))
                   else (hailo_net_flow m \<and> direction l = HAILO_D2H_STREAM) \<or> v = name l)
              (get_all_layer_infos m) = []
         then Inl HAILO_NOT_FOUND
         else Inr (map name (filter
              (\<lambda>l. if is_mux l then is_edge_under_mux l v
                   else if is_defused_nms l then v = name (hd (fused_nms_layer l))
                   else (hailo_net_flow m \<and> direction l = HAILO_D2H_STREAM) \<or> v = name l)
              (get_all_layer_infos m)))))"
    by (rule get_stream_names_from_vstream_name_filter[where
          B = "\<lambda>l. \<not> is_mux l \<and> is_defused_nms l \<and> fused_nms_layer l = []"])
       (rule get_stream_names_from_vstream_name_body_cases)
  have net_flow: "\<not> is_mux l \<and> \<not> is_defused_nms l \<and> direction l = HAILO_D2H_STREAM \<longrightarrow>
      get_stream_names_from_vstream_name_body True v l results = Some (results @ [name l])"
    by (simp add: get_stream_names_from_vstream_name_body_def)
  have plain: "\<not> is_mux l \<and> \<not> is_defused_nms l \<longrightarrow>
      get_stream_names_from_vstream_name_body False v l results =
        Some (if v = name l then results @ [name l] else results)"
    by (simp add: get_stream_names_from_vstream_name_body_def)
  from whole net_flow plain show ?thesis by (intro conjI)
qed

text \<open>
  The claim C3 as stated fails: with \<open>hailo_net_flow\<close> set, a device-to-host boundary layer
  that is mux, or a fragment, does not contribute its name for the requested name \<open>z\<close>.
\<close>

theorem C3_counterexample:
  "hailo_net_flow example_net_flow_mux \<and>
   example_M \<in> set (get_all_layer_infos example_net_flow_mux) \<and>
   direction example_M = HAILO_D2H_STREAM \<and>
   get_stream_names_from_vstream_name example_net_flow_mux ''z'' = Some (Inl HAILO_NOT_FOUND) \<and>
   hailo_net_flow example_net_flow_nms \<and>
   example_nms_fragment ''nms0'' ''nms'' \<in> set (get_all_layer_infos example_net_flow_nms) \<and>
   direction (example_nms_fragment ''nms0'' ''nms'') = HAILO_D2H_STREAM \<and>
   get_stream_names_from_vstream_name example_net_flow_nms ''z'' = Some (Inl HAILO_NOT_FOUND)"
proof -
  have "get_stream_names_from_vstream_name example_net_flow_mux ''z'' =
      Some (Inl HAILO_NOT_FOUND)"
    unfolding get_stream_names_from_vstream_name_def example_net_flow_mux_layers
    by (simp add: get_stream_names_from_vstream_name_body_def example_M_def example_mux_def
        example_leaf_def)
  moreover have "get_stream_names_from_vstream_name example_net_flow_nms ''z'' =
      Some (Inl HAILO_NOT_FOUND)"
    unfolding get_stream_names_from_vstream_name_def example_net_flow_nms_layers
    by (simp add: get_stream_names_from_vstream_name_body_def example_nms_fragment_def)
  moreover have "hailo_net_flow example_net_flow_mux" "hailo_net_flow example_net_flow_nms"
    by (simp_all add: example_net_flow_mux_def example_net_flow_nms_def example_metadata_def)
  moreover have "direction example_M = HAILO_D2H_STREAM"
    "direction (example_nms_fragment ''nms0'' ''nms'') = HAILO_D2H_STREAM"
    by (simp_all add: example_M_def example_mux_def example_nms_fragment_def)
  ultimately show ?thesis
    by (simp add: example_net_flow_mux_layers example_net_flow_nms_layers)
qed

theorem C3_witness:
  "get_stream_names_from_vstream_name example_two_networks ''out1'' = Some (Inr [''out1'']) \<and>
   get_stream_names_from_vstream_name example_two_networks ''z'' = Some (Inl HAILO_NOT_FOUND) \<and>
   get_stream_names_from_vstream_name_body True ''z''
     (example_layer ''out0'' HAILO_D2H_STREAM ''net0'') [] = Some [''out0''] \<and>
   get_stream_names_from_vstream_name_body False ''z''
     (example_layer ''out0'' HAILO_D2H_STREAM ''net0'') [] = Some []"
proof -
  have layers: "get_all_layer_infos example_two_networks =
      [example_layer ''in0'' HAILO_H2D_STREAM ''net0'',
       example_layer ''in1'' HAILO_H2D_STREAM ''net1'',
       example_layer ''out0'' HAILO_D2H_STREAM ''net0'',
       example_layer ''out1'' HAILO_D2H_STREAM ''net1'']"
    by (simp add: get_all_layer_infos_append example_two_networks_inputs
        example_two_networks_outputs)
  have flow: "\<not> hailo_net_flow example_two_networks"
    by (simp add: example_two_networks_def example_metadata_def)
  show ?thesis
    using C3_stream_names_from_vstream_name[of example_two_networks "''out1''"
        "example_layer ''out0'' HAILO_D2H_STREAM ''net0''" "[]"]
      C3_stream_names_from_vstream_name[of example_two_networks "''z''"
        "example_layer ''out0'' HAILO_D2H_STREAM ''net0''" "[]"]
    unfolding layers
    using flow by (simp add: example_layer_def)
qed

text \<open>
  C10: \<^verbatim>\<open>fused_nms_layer[0]\<close> is read only at a layer whose \<open>is_defused_nms\<close> is true: a read
  out of range (\<open>None\<close>) happens only if a boundary layer with \<open>is_defused_nms\<close> true has an
  empty \<open>fused_nms_layer\<close>. So when every boundary layer with \<open>is_defused_nms\<close> true has a
  non-empty \<open>fused_nms_layer\<close>, neither function reads out of range, whatever the name
  queried.
\<close>

theorem C10_fused_nms_layer_in_bounds:
  "(get_vstream_names_from_stream_name m stream_name = None \<longrightarrow>
      (\<exists>l \<in> set (get_all_layer_infos m).
          name l = stream_name \<and> is_defused_nms l \<and> fused_nms_layer l = [])) \<and>
   (get_stream_names_from_vstream_name m v = None \<longrightarrow>
      (\<exists>l \<in> set (get_all_layer_infos m). is_defused_nms l \<and> fused_nms_layer l = [])) \<and>
   ((\<forall>l \<in> set (get_all_layer_infos m). is_defused_nms l \<longrightarrow> fused_nms_layer l \<noteq> []) \<longrightarrow>
      get_vstream_names_from_stream_name m stream_name \<noteq> None \<and>
      get_stream_names_from_vstream_name m v \<noteq> None)"
proof -
  have c1: "get_vstream_names_from_stream_name m stream_name = None \<longrightarrow>
      (\<exists>l \<in> set (get_all_layer_infos m).
          name l = stream_name \<and> is_defused_nms l \<and> fused_nms_layer l = [])"
    unfolding get_vstream_names_from_stream_name_def
    using get_vstream_names_from_stream_name_loop_None by blast
  have c2: "get_stream_names_from_vstream_name m v = None \<longrightarrow>
      (\<exists>l \<in> set (get_all_layer_infos m). is_defused_nms l \<and> fused_nms_layer l = [])"
  proof
    assume none: "get_stream_names_from_vstream_name m v = None"
    have "\<exists>l \<in> set (get_all_layer_infos m).
        \<not> is_mux l \<and> is_defused_nms l \<and> fused_nms_layer l = []"
    proof (rule ccontr)
      assume "\<not> ?thesis"
      then have "get_stream_names_from_vstream_name m v \<noteq> None"
        by (simp only: get_stream_names_from_vstream_name_filter[where
              B = "\<lambda>l. \<not> is_mux l \<and> is_defused_nms l \<and> fused_nms_layer l = []",
              OF get_stream_names_from_vstream_name_body_cases] if_False) simp
      with none show False by simp
    qed
    then show "\<exists>l \<in> set (get_all_layer_infos m). is_defused_nms l \<and> fused_nms_layer l = []"
      by blast
  qed
  from c1 c2 have c3: "(\<forall>l \<in> set (get_all_layer_infos m).
        is_defused_nms l \<longrightarrow> fused_nms_layer l \<noteq> []) \<longrightarrow>
      get_vstream_names_from_stream_name m stream_name \<noteq> None \<and>
      get_stream_names_from_vstream_name m v \<noteq> None"
    by blast
  from c1 c2 c3 show ?thesis by (intro conjI)
qed

theorem C10_witness:
  "get_vstream_names_from_stream_name example_net_flow_nms ''nms0'' = Some (Inr [''nms'']) \<and>
   get_stream_names_from_vstream_name example_net_flow_nms ''nms'' = Some (Inr [''nms0'']) \<and>
   get_vstream_names_from_stream_name example_nms_without_fused ''nms0'' = None \<and>
   get_stream_names_from_vstream_name example_nms_without_fused ''nms'' = None \<and>
   (\<exists>l \<in> set (get_all_layer_infos example_nms_without_fused).
      name l = ''nms0'' \<and> is_defused_nms l \<and> fused_nms_layer l = [])"
proof -
  have "\<forall>l \<in> set (get_all_layer_infos example_net_flow_nms).
      is_defused_nms l \<longrightarrow> fused_nms_layer l \<noteq> []"
    by (simp add: example_net_flow_nms_layers example_nms_fragment_def)
  with C10_fused_nms_layer_in_bounds[of example_net_flow_nms "''nms0''" "''nms''"]
  have "get_vstream_names_from_stream_name example_net_flow_nms ''nms0'' \<noteq> None \<and>
      get_stream_names_from_vstream_name example_net_flow_nms ''nms'' \<noteq> None"
    by blast
  then have in_bounds:
    "get_vstream_names_from_stream_name example_net_flow_nms ''nms0'' = Some (Inr [''nms'']) \<and>
     get_stream_names_from_vstream_name example_net_flow_nms ''nms'' = Some (Inr [''nms0''])"
    unfolding get_vstream_names_from_stream_name_def get_stream_names_from_vstream_name_def
      example_net_flow_nms_layers
    by (simp add: get_stream_names_from_vstream_name_body_def example_nms_fragment_def)
  have layers: "get_all_layer_infos example_nms_without_fused =
      [LayerInfo ''nms0'' HAILO_D2H_STREAM ''net'' False [] True []]"
    by (simp add: get_all_layer_infos_append get_input_layer_infos_concat
        get_output_layer_infos_concat example_nms_without_fused_def example_metadata_def
        example_context_def)
  have none: "get_vstream_names_from_stream_name example_nms_without_fused ''nms0'' = None"
    "get_stream_names_from_vstream_name example_nms_without_fused ''nms'' = None"
    unfolding get_vstream_names_from_stream_name_def get_stream_names_from_vstream_name_def
      layers
    by (simp_all add: get_stream_names_from_vstream_name_body_def)
  with C10_fused_nms_layer_in_bounds[of example_nms_without_fused "''nms0''" "''nms''"]
  have "\<exists>l \<in> set (get_all_layer_infos example_nms_without_fused).
      name l = ''nms0'' \<and> is_defused_nms l \<and> fused_nms_layer l = []"
    by blast
  with in_bounds none show ?thesis by blast
qed

section \<open>Properties of the metadata per architecture\<close>

lemma example_metas_differ: "example_meta1 \<noteq> example_meta2"
  by (simp add: example_meta1_def example_meta2_def example_metadata_def)

lemma map_of_map_assign: "map_of (map_assign m k v) = (map_of m)(k \<mapsto> v)"
  by (induction m) (auto simp: fun_upd_twist)

lemma set_map_assign: "fst ` set (map_assign m k v) = insert k (fst ` set m)"
  by (induction m) auto

lemma sorted_map_assign:
  "sorted_wrt (<) (map fst m) \<Longrightarrow> sorted_wrt (<) (map fst (map_assign m k v))"
proof (induction m)
  case Nil
  then show ?case by simp
next
  case (Cons e m)
  then show ?case
    using set_map_assign[of m k v] by (auto simp: image_iff) 
qed

lemma foldl_add_metadata_map_of:
  "map_of (foldl (\<lambda>m (metadata, bitmap). add_metadata m metadata bitmap) m0 calls) =
   map_of (rev (map prod.swap calls) @ m0)"
proof (induction calls arbitrary: m0)
  case Nil
  then show ?case by simp
next
  case (Cons c calls)
  obtain md b where c: "c = (md, b)" by (cases c)
  have "map_of (foldl (\<lambda>m (metadata, bitmap). add_metadata m metadata bitmap) m0 (c # calls)) =
      map_of (rev (map prod.swap calls) @ add_metadata m0 md b)"
    using Cons.IH[of "add_metadata m0 md b"] by (simp add: c)
  also have "\<dots> = map_of (rev (map prod.swap (c # calls)) @ m0)"
    by (simp add: c add_metadata_def map_of_map_assign)
  finally show ?case .
qed

lemma foldl_add_metadata_sorted:
  "sorted_wrt (<) (map fst m0) \<Longrightarrow>
   sorted_wrt (<) (map fst (foldl (\<lambda>m (metadata, bitmap). add_metadata m metadata bitmap) m0 calls))"
proof (induction calls arbitrary: m0)
  case Nil
  then show ?case by simp
next
  case (Cons c calls)
  obtain md b where c: "c = (md, b)" by (cases c)
  from Cons.prems have "sorted_wrt (<) (map fst (add_metadata m0 md b))"
    unfolding add_metadata_def by (rule sorted_map_assign)
  then show ?case
    using Cons.IH[of "add_metadata m0 md b"] by (simp add: c)
qed

lemma metadata_per_arch_of_sorted: "sorted_wrt (<) (map fst (metadata_per_arch_of calls))"
  unfolding metadata_per_arch_of_def by (rule foldl_add_metadata_sorted) simp

lemma metadata_per_arch_of_map_of:
  "map_of (metadata_per_arch_of calls) = map_of (rev (map prod.swap calls))"
  unfolding metadata_per_arch_of_def using foldl_add_metadata_map_of[of "[]" calls] by simp

lemma metadata_per_arch_of_keys: "fst ` set (metadata_per_arch_of calls) = snd ` set calls"
proof -
  have "fst ` set (metadata_per_arch_of calls) = dom (map_of (metadata_per_arch_of calls))"
    by (simp add: dom_map_of_conv_image_fst)
  also have "\<dots> = fst ` set (rev (map prod.swap calls))"
    by (simp only: metadata_per_arch_of_map_of dom_map_of_conv_image_fst)
  also have "\<dots> = snd ` set calls"
    by (simp add: image_image)
  finally show ?thesis .
qed

lemma sorted_head_least:
  assumes "sorted_wrt (<) (map fst (e # m))"
  shows "Min (fst ` set (e # m)) = fst e" and "map_of (e # m) (fst e) = Some (snd e)"
proof -
  from assms have "\<forall>k \<in> fst ` set (e # m). fst e \<le> k" by auto
  then show "Min (fst ` set (e # m)) = fst e"
    by (intro Min_eqI) auto
  show "map_of (e # m) (fst e) = Some (snd e)" by simp
qed

text \<open>
  C2, as amended, for the map \<open>metadata_per_arch_of calls\<close> built by a sequence of calls of
  \<open>add_metadata\<close>. For a bitmap that is not the sentinel \<open>ignore\<close>, \<open>get_metadata\<close> returns the
  variant added last under that bitmap, and fails with \<open>HAILO_INTERNAL_FAILURE\<close> when no
  variant was added under it. For the sentinel on a non-empty map it returns the first
  entry of the ordered map, that is the variant under the least bitmap added (whether or
  not the sentinel is a key itself). For the sentinel on the empty map the assertion
  fails: no status is returned.
\<close>

theorem C2_get_metadata:
  "(bitmap \<noteq> ignore \<and> map_of (rev (map prod.swap calls)) bitmap = Some x \<longrightarrow>
      get_metadata ignore (metadata_per_arch_of calls) bitmap = Returned (Inr x)) \<and>
   (bitmap \<noteq> ignore \<and> bitmap \<notin> snd ` set calls \<longrightarrow>
      get_metadata ignore (metadata_per_arch_of calls) bitmap =
        Returned (Inl HAILO_INTERNAL_FAILURE)) \<and>
   (calls \<noteq> [] \<longrightarrow>
      (\<exists>y. get_metadata ignore (metadata_per_arch_of calls) ignore = Returned (Inr y) \<and>
           map_of (rev (map prod.swap calls)) (Min (snd ` set calls)) = Some y)) \<and>
   (calls = [] \<longrightarrow>
      get_metadata ignore (metadata_per_arch_of calls) ignore = Assertion_Failed)"
proof -
  let ?m = "metadata_per_arch_of calls"
  have c1: "bitmap \<noteq> ignore \<and> map_of (rev (map prod.swap calls)) bitmap = Some x \<longrightarrow>
      get_metadata ignore ?m bitmap = Returned (Inr x)"
    by (auto simp: get_metadata_def metadata_per_arch_of_map_of)
  have "map_of ?m bitmap = None" if "bitmap \<notin> snd ` set calls"
    using that metadata_per_arch_of_keys[of calls] by (simp add: map_of_eq_None_iff)
  then have c2: "bitmap \<noteq> ignore \<and> bitmap \<notin> snd ` set calls \<longrightarrow>
      get_metadata ignore ?m bitmap = Returned (Inl HAILO_INTERNAL_FAILURE)"
    by (auto simp: get_metadata_def)
  have c3: "calls \<noteq> [] \<longrightarrow>
      (\<exists>y. get_metadata ignore ?m ignore = Returned (Inr y) \<and>
           map_of (rev (map prod.swap calls)) (Min (snd ` set calls)) = Some y)"
  proof
    assume "calls \<noteq> []"
    then have "snd ` set calls \<noteq> {}" by simp
    then have "?m \<noteq> []" using metadata_per_arch_of_keys[of calls] by auto
    then obtain e m' where m: "?m = e # m'" by (cases ?m) auto
    have sorted: "sorted_wrt (<) (map fst (e # m'))"
      using metadata_per_arch_of_sorted[of calls] by (simp only: m)
    have "Min (snd ` set calls) = fst e"
      using sorted_head_least(1)[OF sorted] metadata_per_arch_of_keys[of calls] by (simp only: m)
    moreover have "map_of (rev (map prod.swap calls)) (fst e) = Some (snd e)"
      using sorted_head_least(2)[OF sorted] metadata_per_arch_of_map_of[of calls] by (simp only: m)
    moreover have "get_metadata ignore ?m ignore = Returned (Inr (snd e))"
      by (simp add: get_metadata_def m)
    ultimately show "\<exists>y. get_metadata ignore ?m ignore = Returned (Inr y) \<and>
           map_of (rev (map prod.swap calls)) (Min (snd ` set calls)) = Some y"
      by simp
  qed
  have c4: "calls = [] \<longrightarrow> get_metadata ignore ?m ignore = Assertion_Failed"
    by (simp add: get_metadata_def metadata_per_arch_of_def)
  from c1 c2 c3 c4 show ?thesis by (intro conjI)
qed

text \<open>
  The claim C2 as stated fails: on the empty map the sentinel path does not return
  \<open>HAILO_INTERNAL_FAILURE\<close>; after adding \<open>meta1\<close> under 7 and then \<open>meta2\<close> under 3 the sentinel
  path returns \<open>meta2\<close>, not the variant inserted first; and when the sentinel is a key, the
  sentinel path does not return the variant stored under it.
\<close>

theorem C2_counterexample:
  "get_metadata 0xFFFFFFFF (metadata_per_arch_of []) 0xFFFFFFFF = Assertion_Failed \<and>
   get_metadata 0xFFFFFFFF (metadata_per_arch_of []) 0xFFFFFFFF \<noteq>
     Returned (Inl HAILO_INTERNAL_FAILURE) \<and>
   get_metadata 0xFFFFFFFF (metadata_per_arch_of [(example_meta1, 7), (example_meta2, 3)])
     0xFFFFFFFF = Returned (Inr example_meta2) \<and>
   example_meta2 \<noteq> example_meta1 \<and>
   get_metadata 0xFFFFFFFF
     (metadata_per_arch_of [(example_meta1, 3), (example_meta2, 0xFFFFFFFF)])
     0xFFFFFFFF = Returned (Inr example_meta1)"
  using example_metas_differ
  by (simp add: get_metadata_def metadata_per_arch_of_def add_metadata_def)

theorem C2_witness:
  "get_metadata 0xFFFFFFFF (metadata_per_arch_of [(example_meta1, 3), (example_meta2, 7)]) 3 =
     Returned (Inr example_meta1) \<and>
   get_metadata 0xFFFFFFFF (metadata_per_arch_of [(example_meta1, 3), (example_meta2, 7)]) 7 =
     Returned (Inr example_meta2) \<and>
   get_metadata 0xFFFFFFFF (metadata_per_arch_of [(example_meta1, 3), (example_meta2, 7)]) 9 =
     Returned (Inl HAILO_INTERNAL_FAILURE) \<and>
   get_metadata 0xFFFFFFFF (metadata_per_arch_of [(example_meta1, 3), (example_meta2, 7)])
     0xFFFFFFFF = Returned (Inr example_meta1) \<and>
   get_metadata 0xFFFFFFFF (metadata_per_arch_of []) 0xFFFFFFFF = Assertion_Failed"
  using C2_get_metadata[of 3 "0xFFFFFFFF" "[(example_meta1, 3), (example_meta2, 7)]" example_meta1]
    C2_get_metadata[of 7 "0xFFFFFFFF" "[(example_meta1, 3), (example_meta2, 7)]" example_meta2]
    C2_get_metadata[of 9 "0xFFFFFFFF" "[(example_meta1, 3), (example_meta2, 7)]" example_meta2]
    C2_get_metadata[of 9 "0xFFFFFFFF" "[]" example_meta2]
  by simp

section \<open>The total transfer size\<close>

lemma scast_small:
  fixes w :: "32 word"
  assumes "unat w < 2 ^ 31"
  shows "(scast w :: 64 word) = of_nat (unat w)"
proof -
  from assms have "uint w < 2 ^ 31"
    by (metis of_nat_less_numeral_power_cancel_iff of_nat_unat)
  moreover have "- (2 ^ 31) \<le> uint w"
    by (rule order_trans[of _ 0]) simp_all
  ultimately have "signed_take_bit 31 (uint w) = uint w"
    by (intro signed_take_bit_int_eq_self)
  then have "sint w = uint w"
    by (simp add: sint_uint)
  then show ?thesis
    by (metis of_int_of_nat_eq of_int_sint of_nat_unat)
qed

lemma foldl_add_word: "foldl (\<lambda>acc x. acc + x) acc xs = acc + sum_list (xs :: 32 word list)"
  by (induction xs arbitrary: acc) (simp_all add: add.assoc)

lemma sum_list_word_of_nat: "sum_list (xs :: 32 word list) = of_nat (sum_list (map unat xs))"
  by (induction xs) simp_all

lemma sum_list_ucast:
  "sum_list (map ucast (xs :: 32 word list)) = (of_nat (sum_list (map unat xs)) :: 64 word)"
  by (induction xs) simp_all

lemma accumulate_int_small:
  assumes "sum_list (map unat sizes) < 2 ^ 31"
  shows "(scast (accumulate_int sizes) :: size_t) = sum_list (map ucast sizes)"
proof -
  have acc: "accumulate_int sizes = of_nat (sum_list (map unat sizes))"
    by (simp add: accumulate_int_def foldl_add_word sum_list_word_of_nat)
  from assms have "sum_list (map unat sizes) < 2 ^ 32" by simp
  then have "unat (accumulate_int sizes) = sum_list (map unat sizes)"
    unfolding acc by (simp add: unat_of_nat)
  with assms show ?thesis
    by (simp add: scast_small sum_list_ucast)
qed

lemma config_buffers_loop_small:
  assumes "\<forall>b \<in> set config_buffers. sum_list (map unat (snd b)) < 2 ^ 31"
  shows "config_buffers_loop config_buffers acc0 =
     acc0 + sum_list (map ucast (concat (map snd config_buffers)))"
  using assms
  by (induction config_buffers arbitrary: acc0) (simp_all add: accumulate_int_small add.assoc)

lemma get_layers_transfer_size_loop_ok:
  assumes "\<forall>l \<in> set ls. \<not> isl (ts l)"
  shows "get_layers_transfer_size_loop ts ls acc0 = Inr (acc0 + sum_list (map (projr \<circ> ts) ls))"
  using assms
  by (induction ls arbitrary: acc0) (auto split: sum.splits simp: add.assoc)

lemma get_layers_transfer_size_loop_fail:
  assumes "\<exists>l \<in> set ls. isl (ts l)"
  shows "\<exists>status. get_layers_transfer_size_loop ts ls acc0 = Inl status \<and>
           Inl status \<in> ts ` set ls"
  using assms
proof (induction ls arbitrary: acc0)
  case Nil
  then show ?case by simp
next
  case (Cons l ls)
  show ?case
  proof (cases "ts l")
    case (Inl status)
    then show ?thesis by (auto simp: image_iff)
  next
    case (Inr sz)
    with Cons.prems have "\<exists>l \<in> set ls. isl (ts l)" by auto
    from Cons.IH[OF this, of "acc0 + sz"] Inr show ?thesis by auto
  qed
qed

lemma get_layers_transfer_size_loop_shift:
  "get_layers_transfer_size_loop ts ls acc0 =
     (case get_layers_transfer_size_loop ts ls 0 of
        Inl status \<Rightarrow> Inl status | Inr s \<Rightarrow> Inr (acc0 + s))"
proof (induction ls arbitrary: acc0)
  case Nil
  then show ?case by simp
next
  case (Cons l ls)
  show ?case
  proof (cases "ts l")
    case (Inl status)
    then show ?thesis by simp
  next
    case (Inr sz)
    then show ?thesis
      using Cons.IH[of "acc0 + sz"] Cons.IH[of sz]
      by (simp add: add.assoc split: sum.splits)
  qed
qed

lemma get_layers_transfer_size_append:
  "get_layers_transfer_size ts (xs @ ys) =
     expected_add (get_layers_transfer_size ts xs) (get_layers_transfer_size ts ys)"
proof -
  have "get_layers_transfer_size_loop ts (xs @ ys) acc0 =
     (case get_layers_transfer_size_loop ts xs acc0 of
        Inl status \<Rightarrow> Inl status
      | Inr a \<Rightarrow> get_layers_transfer_size_loop ts ys a)" for acc0
    by (induction xs arbitrary: acc0) (simp_all split: sum.splits)
  then have app: "get_layers_transfer_size_loop ts (xs @ ys) 0 =
     (case get_layers_transfer_size_loop ts xs 0 of
        Inl status \<Rightarrow> Inl status
      | Inr a \<Rightarrow> get_layers_transfer_size_loop ts ys a)" .
  show ?thesis
  proof (cases "get_layers_transfer_size_loop ts xs 0")
    case (Inl status)
    then show ?thesis
      by (simp add: get_layers_transfer_size_def expected_add_def app)
  next
    case (Inr a)
    then show ?thesis
      using get_layers_transfer_size_loop_shift[of ts ys a]
      by (simp add: get_layers_transfer_size_def expected_add_def app)
  qed
qed

lemma get_context_transfer_size_edge_layers:
  "get_context_transfer_size ts context =
     expected_add (Inr (config_buffers_loop (m_config_buffers_info context) 0))
       (get_layers_transfer_size ts (edge_layers context))"
proof -
  have "get_context_transfer_size ts context =
     expected_add (Inr (config_buffers_loop (m_config_buffers_info context) 0))
       (expected_add (get_layers_transfer_size ts (m_boundary_input_layers context))
       (expected_add (get_layers_transfer_size ts (m_boundary_output_layers context))
       (expected_add (get_layers_transfer_size ts (m_ddr_input_layers context))
       (expected_add (get_layers_transfer_size ts (m_ddr_output_layers context))
       (expected_add (get_layers_transfer_size ts (m_inter_context_input_layers context))
          (get_layers_transfer_size ts (m_inter_context_output_layers context)))))))"
    unfolding get_context_transfer_size_def Let_def
    by (cases "get_layers_transfer_size ts (m_boundary_input_layers context)";
        cases "get_layers_transfer_size ts (m_boundary_output_layers context)";
        cases "get_layers_transfer_size ts (m_ddr_input_layers context)";
        cases "get_layers_transfer_size ts (m_ddr_output_layers context)";
        cases "get_layers_transfer_size ts (m_inter_context_input_layers context)";
        cases "get_layers_transfer_size ts (m_inter_context_output_layers context)";
        simp add: expected_add_def add.assoc)
  then show ?thesis
    by (simp only: edge_layers_def get_layers_transfer_size_append)
qed

lemma get_context_transfer_size_ok:
  assumes "\<forall>b \<in> set (m_config_buffers_info context). sum_list (map unat (snd b)) < 2 ^ 31"
    and "\<forall>l \<in> set (edge_layers context). \<not> isl (ts l)"
  shows "get_context_transfer_size ts context =
     Inr (sum_list (map ucast (concat (map snd (m_config_buffers_info context)))) +
          sum_list (map (projr \<circ> ts) (edge_layers context)))"
  unfolding get_context_transfer_size_edge_layers get_layers_transfer_size_def
    get_layers_transfer_size_loop_ok[OF assms(2)] config_buffers_loop_small[OF assms(1)]
  by (simp add: expected_add_def)

lemma get_context_transfer_size_fail:
  assumes "\<exists>l \<in> set (edge_layers context). isl (ts l)"
  shows "\<exists>status. get_context_transfer_size ts context = Inl status \<and>
           Inl status \<in> ts ` set (edge_layers context)"
proof -
  from get_layers_transfer_size_loop_fail[OF assms, of 0] obtain status
    where "get_layers_transfer_size ts (edge_layers context) = Inl status"
      "Inl status \<in> ts ` set (edge_layers context)"
    unfolding get_layers_transfer_size_def by blast
  then show ?thesis
    unfolding get_context_transfer_size_edge_layers by (simp add: expected_add_def)
qed

lemma get_total_transfer_size_loop_ok:
  assumes "\<forall>c \<in> set cs. \<not> isl (get_context_transfer_size ts c)"
  shows "get_total_transfer_size_loop ts cs acc0 =
     Inr (acc0 + sum_list (map (projr \<circ> get_context_transfer_size ts) cs))"
  using assms
  by (induction cs arbitrary: acc0) (auto split: sum.splits simp: add.assoc)

lemma get_total_transfer_size_loop_fail:
  assumes "\<exists>c \<in> set cs. isl (get_context_transfer_size ts c)"
  shows "\<exists>status. get_total_transfer_size_loop ts cs acc0 = Inl status \<and>
           Inl status \<in> get_context_transfer_size ts ` set cs"
  using assms
proof (induction cs arbitrary: acc0)
  case Nil
  then show ?case by simp
next
  case (Cons c cs)
  show ?case
  proof (cases "get_context_transfer_size ts c")
    case (Inl status)
    then show ?thesis by (auto simp: image_iff)
  next
    case (Inr sz)
    with Cons.prems have "\<exists>c \<in> set cs. isl (get_context_transfer_size ts c)" by auto
    from Cons.IH[OF this, of "acc0 + sz"] Inr show ?thesis by auto
  qed
qed

text \<open>
  Where the sizes of every config buffer add up to less than \<open>2 ^ 31\<close>, the total is the
  sum, computed in \<^verbatim>\<open>size_t\<close>, over the dynamic contexts of all config-buffer sizes and of
  the transfer sizes of the layers of the six edge-layer lists; when the transfer size of
  a layer fails, the total is the status of such a layer. The preliminary context is not
  read.
\<close>

lemma get_total_transfer_size_sum:
  assumes small: "\<forall>context \<in> set (m_dynamic_contexts m).
      \<forall>b \<in> set (m_config_buffers_info context). sum_list (map unat (snd b)) < 2 ^ 31"
  shows "(\<forall>context \<in> set (m_dynamic_contexts m). \<forall>l \<in> set (edge_layers context). \<not> isl (ts l)) \<longrightarrow>
      get_total_transfer_size ts m =
        Inr (sum_list (map (\<lambda>context.
               sum_list (map ucast (concat (map snd (m_config_buffers_info context)))) +
               sum_list (map (projr \<circ> ts) (edge_layers context)))
             (m_dynamic_contexts m)))"
    and "(\<exists>context \<in> set (m_dynamic_contexts m). \<exists>l \<in> set (edge_layers context). isl (ts l)) \<longrightarrow>
      (\<exists>status. get_total_transfer_size ts m = Inl status \<and>
         (\<exists>context \<in> set (m_dynamic_contexts m). Inl status \<in> ts ` set (edge_layers context)))"
proof -
  show "(\<forall>context \<in> set (m_dynamic_contexts m). \<forall>l \<in> set (edge_layers context). \<not> isl (ts l)) \<longrightarrow>
      get_total_transfer_size ts m =
        Inr (sum_list (map (\<lambda>context.
               sum_list (map ucast (concat (map snd (m_config_buffers_info context)))) +
               sum_list (map (projr \<circ> ts) (edge_layers context)))
             (m_dynamic_contexts m)))"
  proof
    assume ok: "\<forall>context \<in> set (m_dynamic_contexts m). \<forall>l \<in> set (edge_layers context). \<not> isl (ts l)"
    have each: "get_context_transfer_size ts c =
        Inr (sum_list (map ucast (concat (map snd (m_config_buffers_info c)))) +
             sum_list (map (projr \<circ> ts) (edge_layers c)))"
      if "c \<in> set (m_dynamic_contexts m)" for c
      using that small ok by (intro get_context_transfer_size_ok) blast+
    then have "\<forall>c \<in> set (m_dynamic_contexts m). \<not> isl (get_context_transfer_size ts c)"
      by simp
    from get_total_transfer_size_loop_ok[OF this, of 0]
    have "get_total_transfer_size ts m =
        Inr (sum_list (map (projr \<circ> get_context_transfer_size ts) (m_dynamic_contexts m)))"
      by (simp add: get_total_transfer_size_def)
    moreover have "map (projr \<circ> get_context_transfer_size ts) (m_dynamic_contexts m) =
        map (\<lambda>context.
               sum_list (map ucast (concat (map snd (m_config_buffers_info context)))) +
               sum_list (map (projr \<circ> ts) (edge_layers context)))
             (m_dynamic_contexts m)"
      using each by simp
    ultimately show "get_total_transfer_size ts m =
        Inr (sum_list (map (\<lambda>context.
               sum_list (map ucast (concat (map snd (m_config_buffers_info context)))) +
               sum_list (map (projr \<circ> ts) (edge_layers context)))
             (m_dynamic_contexts m)))"
      by simp
  qed
  show "(\<exists>context \<in> set (m_dynamic_contexts m). \<exists>l \<in> set (edge_layers context). isl (ts l)) \<longrightarrow>
      (\<exists>status. get_total_transfer_size ts m = Inl status \<and>
         (\<exists>context \<in> set (m_dynamic_contexts m). Inl status \<in> ts ` set (edge_layers context)))"
  proof
    assume "\<exists>context \<in> set (m_dynamic_contexts m). \<exists>l \<in> set (edge_layers context). isl (ts l)"
    then obtain c0 where c0: "c0 \<in> set (m_dynamic_contexts m)"
      "\<exists>l \<in> set (edge_layers c0). isl (ts l)" by blast
    from get_context_transfer_size_fail[OF c0(2)]
    obtain status0 where "get_context_transfer_size ts c0 = Inl status0"
      by blast
    then have "isl (get_context_transfer_size ts c0)"
      by simp
    with c0(1) have "\<exists>c \<in> set (m_dynamic_contexts m). isl (get_context_transfer_size ts c)"
      by blast
    from get_total_transfer_size_loop_fail[OF this, of 0] obtain status
      where status: "get_total_transfer_size ts m = Inl status"
        "Inl status \<in> get_context_transfer_size ts ` set (m_dynamic_contexts m)"
      unfolding get_total_transfer_size_def by blast
    from status(2) obtain c where c: "c \<in> set (m_dynamic_contexts m)"
      "get_context_transfer_size ts c = Inl status" by force
    have "\<exists>l \<in> set (edge_layers c). isl (ts l)"
    proof (rule ccontr)
      assume "\<not> ?thesis"
      then have "get_layers_transfer_size ts (edge_layers c) =
          Inr (0 + sum_list (map (projr \<circ> ts) (edge_layers c)))"
        unfolding get_layers_transfer_size_def
        by (intro get_layers_transfer_size_loop_ok) blast
      with c(2) show False
        unfolding get_context_transfer_size_edge_layers by (simp add: expected_add_def)
    qed
    from get_context_transfer_size_fail[OF this] c show
      "\<exists>status. get_total_transfer_size ts m = Inl status \<and>
         (\<exists>context \<in> set (m_dynamic_contexts m). Inl status \<in> ts ` set (edge_layers context))"
      using status(1) by auto
  qed
qed

lemma get_total_transfer_size_preliminary:
  "get_total_transfer_size ts (m\<lparr>m_preliminary_context := c\<rparr>) = get_total_transfer_size ts m"
  by (simp add: get_total_transfer_size_def)

text \<open>
  C4 at a failing input: one dynamic context, no edge layers, one config buffer written
  once with \<open>2 ^ 31\<close> bytes. \<open>get_total_transfer_size\<close> returns \<open>2 ^ 64 - 2 ^ 31\<close>, because
  \<^verbatim>\<open>std::accumulate\<close> sums into an \<^verbatim>\<open>int\<close>, which is negative here and is sign-extended
  when added to the \<^verbatim>\<open>size_t\<close>; the sum over the dynamic contexts of the config-buffer sizes
  and of the transfer sizes of the edge layers is \<open>2 ^ 31 = 0x80000000\<close>.
\<close>

theorem C4_failing_input:
  "get_total_transfer_size example_transfer_size example_large_config =
     Inr 0xFFFFFFFF80000000 \<and>
   sum_list (map (\<lambda>c.
       sum_list (map ucast (concat (map snd (m_config_buffers_info c)))) +
       sum_list (map (projr \<circ> example_transfer_size) (edge_layers c)))
     (m_dynamic_contexts example_large_config)) = (0x80000000 :: size_t)"
  by (simp add: get_total_transfer_size_def example_large_config_def example_metadata_def
      example_context_def get_context_transfer_size_def get_layers_transfer_size_def
      accumulate_int_def edge_layers_def)

section \<open>The order of the output virtual streams\<close>

lemma std_find_le: "std_find xs v \<le> length xs"
  by (induction xs) simp_all

lemma std_find_end_iff: "std_find xs v = length xs \<longleftrightarrow> v \<notin> set xs"
proof (induction xs)
  case Nil
  then show ?case by simp
next
  case (Cons x xs)
  then show ?case using std_find_le[of xs v] by auto
qed

lemma comparator_absent:
  "vstream_name a \<notin> set names \<or> vstream_name b \<notin> set names \<Longrightarrow>
   output_names_comparator names a b st = (False, HAILO_INTERNAL_FAILURE)"
  using std_find_end_iff[of names "vstream_name a"] std_find_end_iff[of names "vstream_name b"]
  by (auto simp: output_names_comparator_def Let_def)

lemma comparator_present:
  "vstream_name a \<in> set names \<Longrightarrow> vstream_name b \<in> set names \<Longrightarrow>
   output_names_comparator names a b st =
     (std_find names (vstream_name a) < std_find names (vstream_name b), st)"
  using std_find_end_iff[of names "vstream_name a"] std_find_end_iff[of names "vstream_name b"]
  by (auto simp: output_names_comparator_def Let_def)

lemma comparator_failure_kept:
  "snd (output_names_comparator names a b HAILO_INTERNAL_FAILURE) = HAILO_INTERNAL_FAILURE"
  by (simp add: output_names_comparator_def Let_def)

lemma unguarded_linear_insert_failure_kept:
  "snd (unguarded_linear_insert (output_names_comparator names) val rp HAILO_INTERNAL_FAILURE) =
     HAILO_INTERNAL_FAILURE"
proof (induction rp)
  case Nil
  then show ?case by simp
next
  case (Cons nxt rp)
  obtain lt where c: "output_names_comparator names val nxt HAILO_INTERNAL_FAILURE =
      (lt, HAILO_INTERNAL_FAILURE)"
    using comparator_failure_kept[of names val nxt]
    by (cases "output_names_comparator names val nxt HAILO_INTERNAL_FAILURE") simp
  show ?case using Cons.IH by (auto simp: c split: prod.splits)
qed

lemma insertion_sort_loop_failure_kept:
  "snd (insertion_sort_loop (output_names_comparator names) rp rest HAILO_INTERNAL_FAILURE) =
     HAILO_INTERNAL_FAILURE"
proof (induction rest arbitrary: rp)
  case Nil
  then show ?case by simp
next
  case (Cons val rest)
  obtain lt where c: "output_names_comparator names val (last rp) HAILO_INTERNAL_FAILURE =
      (lt, HAILO_INTERNAL_FAILURE)"
    using comparator_failure_kept[of names val "last rp"]
    by (cases "output_names_comparator names val (last rp) HAILO_INTERNAL_FAILURE") simp
  obtain rp' where u: "unguarded_linear_insert (output_names_comparator names) val rp
      HAILO_INTERNAL_FAILURE = (rp', HAILO_INTERNAL_FAILURE)"
    using unguarded_linear_insert_failure_kept[of names val rp]
    by (cases "unguarded_linear_insert (output_names_comparator names) val rp
      HAILO_INTERNAL_FAILURE") simp
  show ?case using Cons.IH by (simp add: c u)
qed

lemma insertion_sort_loop_absent_val:
  assumes "vstream_name val \<notin> set names \<or> vstream_name (last rp) \<notin> set names"
  shows "snd (insertion_sort_loop (output_names_comparator names) rp (val # rest) st) =
     HAILO_INTERNAL_FAILURE"
proof -
  obtain rp' where u: "unguarded_linear_insert (output_names_comparator names) val rp
      HAILO_INTERNAL_FAILURE = (rp', HAILO_INTERNAL_FAILURE)"
    using unguarded_linear_insert_failure_kept[of names val rp]
    by (cases "unguarded_linear_insert (output_names_comparator names) val rp
      HAILO_INTERNAL_FAILURE") simp
  show ?thesis
    using insertion_sort_loop_failure_kept[of names rp' rest]
    by (simp add: comparator_absent[OF assms] u)
qed

lemma insertion_sort_loop_absent_rest:
  "\<exists>v \<in> set rest. vstream_name v \<notin> set names \<Longrightarrow>
   snd (insertion_sort_loop (output_names_comparator names) rp rest st) = HAILO_INTERNAL_FAILURE"
proof (induction rest arbitrary: rp st)
  case Nil
  then show ?case by simp
next
  case (Cons val rest)
  show ?case
  proof (cases "vstream_name val \<notin> set names")
    case True
    then show ?thesis by (intro insertion_sort_loop_absent_val) simp
  next
    case False
    with Cons.prems have "\<exists>v \<in> set rest. vstream_name v \<notin> set names" by simp
    from Cons.IH[OF this] show ?thesis
      by (simp split: prod.splits)
  qed
qed

lemma std_sort_detects_absent:
  assumes "2 \<le> length xs" and "\<exists>v \<in> set xs. vstream_name v \<notin> set names"
  shows "snd (std_sort (output_names_comparator names) xs st) = HAILO_INTERNAL_FAILURE"
proof -
  from assms(1) obtain first val rest where xs: "xs = first # val # rest"
    by (cases xs; cases "tl xs") auto
  show ?thesis
  proof (cases "vstream_name first \<notin> set names")
    case True
    then show ?thesis
      unfolding std_sort_def xs
      by (simp only: list.case) (intro insertion_sort_loop_absent_val, simp)
  next
    case False
    with assms(2) have "\<exists>v \<in> set (val # rest). vstream_name v \<notin> set names"
      by (simp add: xs)
    then show ?thesis
      unfolding std_sort_def xs
      by (simp only: list.case) (rule insertion_sort_loop_absent_rest)
  qed
qed

lemma unguarded_linear_insert_present:
  assumes "vstream_name val \<in> set names" and "\<forall>v \<in> set rp. vstream_name v \<in> set names"
  shows "\<exists>rp'. unguarded_linear_insert (output_names_comparator names) val rp st = (rp', st) \<and>
     mset rp' = add_mset val (mset rp) \<and>
     (sorted_wrt (\<lambda>a b. std_find names (vstream_name b) \<le> std_find names (vstream_name a)) rp \<longrightarrow>
      sorted_wrt (\<lambda>a b. std_find names (vstream_name b) \<le> std_find names (vstream_name a)) rp')"
  using assms(2)
proof (induction rp)
  case Nil
  then show ?case by simp
next
  case (Cons nxt rp)
  let ?idx = "\<lambda>v. std_find names (vstream_name v)"
  let ?desc = "sorted_wrt (\<lambda>a b. ?idx b \<le> ?idx a)"
  from Cons.prems have nxt: "vstream_name nxt \<in> set names" by simp
  have c: "output_names_comparator names val nxt st = (?idx val < ?idx nxt, st)"
    using assms(1) nxt by (rule comparator_present)
  show ?case
  proof (cases "?idx val < ?idx nxt")
    case True
    from Cons.IH Cons.prems obtain rp'
      where rp': "unguarded_linear_insert (output_names_comparator names) val rp st = (rp', st)"
        "mset rp' = add_mset val (mset rp)" "?desc rp \<longrightarrow> ?desc rp'"
      by auto
    have "?desc (nxt # rp')" if "?desc (nxt # rp)"
    proof -
      from that rp'(3) have "?desc rp'" by simp
      moreover have "\<forall>x \<in> set rp'. ?idx x \<le> ?idx nxt"
      proof
        fix x assume "x \<in> set rp'"
        then have "x \<in># add_mset val (mset rp)" by (simp flip: rp'(2))
        then have "x = val \<or> x \<in> set rp" by auto
        with that True show "?idx x \<le> ?idx nxt" by auto
      qed
      ultimately show ?thesis by simp
    qed
    with True rp'(1,2) show ?thesis by (simp add: c)
  next
    case False
    have "?desc (val # nxt # rp)" if "?desc (nxt # rp)"
      using that False by auto
    with False show ?thesis by (simp add: c)
  qed
qed

lemma insertion_sort_loop_present:
  assumes "\<forall>v \<in> set rp. vstream_name v \<in> set names"
    and "\<forall>v \<in> set rest. vstream_name v \<in> set names"
    and "sorted_wrt (\<lambda>a b. std_find names (vstream_name b) \<le> std_find names (vstream_name a)) rp"
    and "rp \<noteq> []"
  shows "\<exists>res. insertion_sort_loop (output_names_comparator names) rp rest st = (res, st) \<and>
     mset res = mset rp + mset rest \<and>
     sorted (map (\<lambda>v. std_find names (vstream_name v)) res)"
  using assms
proof (induction rest arbitrary: rp)
  case Nil
  let ?idx = "\<lambda>v. std_find names (vstream_name v)"
  from Nil.prems(3) have "sorted_wrt (\<lambda>a b. ?idx a \<le> ?idx b) (rev rp)"
    by (simp add: sorted_wrt_rev)
  then have "sorted (map ?idx (rev rp))"
    by (simp add: sorted_map)
  then show ?case by simp
next
  case (Cons val rest)
  let ?idx = "\<lambda>v. std_find names (vstream_name v)"
  let ?desc = "sorted_wrt (\<lambda>a b. ?idx b \<le> ?idx a)"
  from Cons.prems have val: "vstream_name val \<in> set names"
    and last_rp: "vstream_name (last rp) \<in> set names"
    by simp_all
  have c: "output_names_comparator names val (last rp) st = (?idx val < ?idx (last rp), st)"
    using val last_rp by (rule comparator_present)
  show ?case
  proof (cases "?idx val < ?idx (last rp)")
    case True
    have least: "?idx (last rp) \<le> ?idx x" if "x \<in> set rp" for x
    proof -
      from \<open>rp \<noteq> []\<close> have rp: "rp = butlast rp @ [last rp]" by simp
      from Cons.prems(3) have "?desc (butlast rp @ [last rp])" by (simp only: rp[symmetric])
      then have "\<forall>y \<in> set (butlast rp). ?idx (last rp) \<le> ?idx y"
        by (simp add: sorted_wrt_append)
      moreover from that have "x \<in> set (butlast rp) \<or> x = last rp"
        by (subst (asm) rp) auto
      ultimately show ?thesis by auto
    qed
    have "?desc (rp @ [val])"
      using Cons.prems(3) True least by (auto simp: sorted_wrt_append intro: less_imp_le order_trans)
    moreover have "\<forall>v \<in> set (rp @ [val]). vstream_name v \<in> set names"
      using Cons.prems(1) val by simp
    moreover have "\<forall>v \<in> set rest. vstream_name v \<in> set names"
      using Cons.prems(2) by simp
    ultimately obtain res
      where "insertion_sort_loop (output_names_comparator names) (rp @ [val]) rest st = (res, st)"
        "mset res = mset (rp @ [val]) + mset rest"
        "sorted (map ?idx res)"
      using Cons.IH[of "rp @ [val]"] by auto
    with True show ?thesis by (simp add: c)
  next
    case False
    from unguarded_linear_insert_present[OF val Cons.prems(1), of st] Cons.prems(3)
    obtain rp'
      where rp': "unguarded_linear_insert (output_names_comparator names) val rp st = (rp', st)"
        "mset rp' = add_mset val (mset rp)" "?desc rp'"
      by auto
    from rp'(2) have set_rp': "set rp' = insert val (set rp)"
      by (metis set_mset_add_mset_insert set_mset_mset)
    then have "\<forall>v \<in> set rp'. vstream_name v \<in> set names" "rp' \<noteq> []"
      using Cons.prems(1) val by auto
    moreover have "\<forall>v \<in> set rest. vstream_name v \<in> set names"
      using Cons.prems(2) by simp
    ultimately obtain res
      where "insertion_sort_loop (output_names_comparator names) rp' rest st = (res, st)"
        "mset res = mset rp' + mset rest"
        "sorted (map ?idx res)"
      using Cons.IH[of rp'] rp'(3) by auto
    with False rp'(1,2) show ?thesis by (simp add: c)
  qed
qed

lemma std_sort_present:
  assumes "\<forall>v \<in> set xs. vstream_name v \<in> set names"
  shows "\<exists>res. std_sort (output_names_comparator names) xs st = (res, st) \<and>
     mset res = mset xs \<and> sorted (map (\<lambda>v. std_find names (vstream_name v)) res)"
proof (cases xs)
  case Nil
  then show ?thesis by (simp add: std_sort_def)
next
  case (Cons first rest)
  with assms insertion_sort_loop_present[of "[first]" names rest st]
  show ?thesis by (simp add: std_sort_def)
qed

lemma std_sort_singleton: "std_sort cmp [x] st = ([x], st)"
  by (simp add: std_sort_def)

text \<open>
  \<open>get_output_vstream_infos\<close> without net-flow, for the vstreams \<open>res\<close> derived from the output
  layers: when every name is among the sorted output names the result is \<open>res\<close> sorted by
  the index of the names; when a name is missing and there are two vstreams or more the
  result is \<open>HAILO_INTERNAL_FAILURE\<close>; a single vstream is returned as it is.
\<close>

lemma get_output_vstream_infos_cases:
  assumes "\<not> hailo_net_flow m"
    and "get_output_layer_infos_of_network m n = Inr layers"
  shows "(\<forall>v \<in> set (convert_layer_infos_to_vstream_infos conv layers).
            vstream_name v \<in> set (m_sorted_output_names m)) \<longrightarrow>
         (\<exists>res. get_output_vstream_infos conv m n = Inr res \<and>
            mset res = mset (convert_layer_infos_to_vstream_infos conv layers) \<and>
            sorted (map (\<lambda>v. std_find (m_sorted_output_names m) (vstream_name v)) res))"
    and "2 \<le> length (convert_layer_infos_to_vstream_infos conv layers) \<and>
         (\<exists>v \<in> set (convert_layer_infos_to_vstream_infos conv layers).
            vstream_name v \<notin> set (m_sorted_output_names m)) \<longrightarrow>
         get_output_vstream_infos conv m n = Inl HAILO_INTERNAL_FAILURE"
    and "length (convert_layer_infos_to_vstream_infos conv layers) = 1 \<longrightarrow>
         get_output_vstream_infos conv m n =
           Inr (convert_layer_infos_to_vstream_infos conv layers)"
proof -
  let ?res = "convert_layer_infos_to_vstream_infos conv layers"
  let ?names = "m_sorted_output_names m"
  have unfold: "get_output_vstream_infos conv m n =
      (case std_sort (output_names_comparator ?names) ?res HAILO_SUCCESS of
         (res', status) \<Rightarrow> if status \<noteq> HAILO_SUCCESS then Inl status else Inr res')"
    using assms by (simp add: get_output_vstream_infos_def)
  show "(\<forall>v \<in> set ?res. vstream_name v \<in> set ?names) \<longrightarrow>
         (\<exists>res. get_output_vstream_infos conv m n = Inr res \<and> mset res = mset ?res \<and>
            sorted (map (\<lambda>v. std_find ?names (vstream_name v)) res))"
  proof
    assume "\<forall>v \<in> set ?res. vstream_name v \<in> set ?names"
    from std_sort_present[OF this, of HAILO_SUCCESS] obtain res
      where "std_sort (output_names_comparator ?names) ?res HAILO_SUCCESS = (res, HAILO_SUCCESS)"
        "mset res = mset ?res" "sorted (map (\<lambda>v. std_find ?names (vstream_name v)) res)"
      by blast
    then show "\<exists>res. get_output_vstream_infos conv m n = Inr res \<and> mset res = mset ?res \<and>
            sorted (map (\<lambda>v. std_find ?names (vstream_name v)) res)"
      by (simp add: unfold)
  qed
  show "2 \<le> length ?res \<and> (\<exists>v \<in> set ?res. vstream_name v \<notin> set ?names) \<longrightarrow>
         get_output_vstream_infos conv m n = Inl HAILO_INTERNAL_FAILURE"
  proof
    assume a: "2 \<le> length ?res \<and> (\<exists>v \<in> set ?res. vstream_name v \<notin> set ?names)"
    then have "snd (std_sort (output_names_comparator ?names) ?res HAILO_SUCCESS) =
        HAILO_INTERNAL_FAILURE"
      by (intro std_sort_detects_absent) simp_all
    then obtain res' where
      "std_sort (output_names_comparator ?names) ?res HAILO_SUCCESS =
         (res', HAILO_INTERNAL_FAILURE)"
      by (cases "std_sort (output_names_comparator ?names) ?res HAILO_SUCCESS") simp
    then show "get_output_vstream_infos conv m n = Inl HAILO_INTERNAL_FAILURE"
      by (simp add: unfold)
  qed
  show "length ?res = 1 \<longrightarrow> get_output_vstream_infos conv m n = Inr ?res"
  proof
    assume "length ?res = 1"
    then obtain x where "?res = [x]"
      by (cases ?res) auto
    then show "get_output_vstream_infos conv m n = Inr ?res"
      by (simp add: unfold std_sort_singleton)
  qed
qed

text \<open>
  C1 at a failing input: \<open>hailo_net_flow\<close> unset, one output layer \<open>out0\<close>, and sorted
  output names that do not hold \<open>out0\<close>. The one derived vstream is not compared with
  anything, the status stays \<open>HAILO_SUCCESS\<close> and the operation returns the vstream instead
  of \<open>HAILO_INTERNAL_FAILURE\<close>.
\<close>

theorem C1_failing_input:
  "\<not> hailo_net_flow example_single_output \<and>
   ''out0'' \<notin> set (m_sorted_output_names example_single_output) \<and>
   get_output_vstream_infos example_vstream_infos_from_layer_info example_single_output [] =
     Inr [\<lparr>vstream_name = ''out0'', vstream_network_name = ''net'', vstream_rest = 0\<rparr>]"
  by (simp add: example_single_output_def example_metadata_def example_context_def
      example_leaf_def get_output_vstream_infos_def get_output_layer_infos_of_network_def
      convert_layer_infos_to_vstream_infos_def push_if_new_def
      example_vstream_infos_from_layer_info_def
      std_sort_def)

text \<open>With a second output layer the comparator runs and the missing name is detected.\<close>

lemma example_two_outputs_detected:
  "get_output_vstream_infos example_vstream_infos_from_layer_info example_two_outputs [] =
     Inl HAILO_INTERNAL_FAILURE"
  by (simp add: example_two_outputs_def example_metadata_def example_context_def
      example_leaf_def get_output_vstream_infos_def get_output_layer_infos_of_network_def
      convert_layer_infos_to_vstream_infos_def push_if_new_def
      example_vstream_infos_from_layer_info_def
      std_sort_def output_names_comparator_def)

end
